theory Spec2Isabelle
  imports Main "HOL-Library.Word"
begin

section \<open>Continuum guideline packs: the update, verify and install pipeline\<close>

text \<open>
  A shallow embedding of \<^verbatim>\<open>guidelines_manager.py\<close> and of the digest part of
  \<^verbatim>\<open>build_index.py\<close>.

  Conventions of the model:
  \<^item> a Python \<^verbatim>\<open>str\<close> is a \<open>string\<close>; a \<open>char\<close> stands for the code point of the
    same number, so the strings of the model are those over the code points 0 to 255;
  \<^item> \<^verbatim>\<open>bytes\<close> are lists of 8-bit words;
  \<^item> a raised exception is the \<open>Inl\<close> of a sum, a returned value the \<open>Inr\<close>;
  \<^item> the file system is an association list from paths to nodes, a path being the
    list of its components; the network is a function from requests to what a GET
    yields, with the list of the requests issued so far;
  \<^item> the library functions that the code calls and whose internals no statement here
    depends on (SHA-256, UTF-8 decoding, the JSON parser, \<^verbatim>\<open>str\<close> of a value that
    is not a string) are the fields of a record that every function using them takes.
\<close>

subsection \<open>Exceptions\<close>

datatype error =
    ValueError string
  | KeyError string
  | TypeError
  | AttributeError
  | FileNotFoundError
  | FileExistsError
  | IsADirectoryError
  | NotADirectoryError
  | PermissionError
  | UnicodeDecodeError
  | JSONDecodeError
  | URLError

subsection \<open>Strings\<close>

text \<open>\<^verbatim>\<open>str.isdigit\<close> on the code points below 256: the ten decimal digits and the
  superscripts two, three and one (U+00B2, U+00B3, U+00B9).\<close>

definition py_isdigit :: "char \<Rightarrow> bool" where
  "py_isdigit c = (let n = (of_char c :: nat) in
     (48 \<le> n \<and> n \<le> 57) \<or> n = 178 \<or> n = 179 \<or> n = 185)"

text \<open>\<^verbatim>\<open>str.isdecimal\<close>, the characters \<^verbatim>\<open>int\<close> accepts as digits.\<close>

definition py_isdecimal :: "char \<Rightarrow> bool" where
  "py_isdecimal c = (let n = (of_char c :: nat) in 48 \<le> n \<and> n \<le> 57)"

text \<open>\<^verbatim>\<open>str.isspace\<close> on the code points below 256, which is what \<^verbatim>\<open>strip()\<close>
  removes: U+0009 to U+000D, U+001C to U+0020, U+0085 and U+00A0.\<close>

definition py_isspace :: "char \<Rightarrow> bool" where
  "py_isspace c = (let n = (of_char c :: nat) in
     (9 \<le> n \<and> n \<le> 13) \<or> (28 \<le> n \<and> n \<le> 32) \<or> n = 133 \<or> n = 160)"

definition py_strip :: "string \<Rightarrow> string" where
  "py_strip s = rev (dropWhile py_isspace (rev (dropWhile py_isspace s)))"

text \<open>\<^verbatim>\<open>str.lower\<close> on the code points below 256: A to Z, and U+00C0 to U+00DE
  without the multiplication sign U+00D7, move up by 32.\<close>

definition py_lower_char :: "char \<Rightarrow> char" where
  "py_lower_char c = (let n = (of_char c :: nat) in
     if (65 \<le> n \<and> n \<le> 90) \<or> (192 \<le> n \<and> n \<le> 222 \<and> n \<noteq> 215)
     then char_of (n + 32) else c)"

definition py_lower :: "string \<Rightarrow> string" where
  "py_lower s = map py_lower_char s"

definition startswith :: "string \<Rightarrow> string \<Rightarrow> bool" where
  "startswith s p = (take (length p) s = p)"

text \<open>\<^verbatim>\<open>s.split(sep)\<close> for a separator of one character: the fields between the
  separators, one more than there are separators, so never an empty list.\<close>

fun split_on :: "char \<Rightarrow> string \<Rightarrow> string list" where
  "split_on sep [] = [[]]"
| "split_on sep (c # cs) =
     (if c = sep then [] # split_on sep cs
      else (case split_on sep cs of
              [] \<Rightarrow> [[c]]
            | f # fs \<Rightarrow> (c # f) # fs))"

text \<open>\<^verbatim>\<open>int(s)\<close> on a string of \<^verbatim>\<open>isdigit\<close> characters (the only strings the parser
  passes to it): the decimal value when every character is a decimal digit, and
  \<^verbatim>\<open>ValueError\<close> on the empty string and on a string holding a superscript digit.
  The interpreter's optional bound on the number of digits of such a string is not
  modelled; past it \<^verbatim>\<open>int\<close> raises \<^verbatim>\<open>ValueError\<close> as well, which the parser turns into
  0 in the same way.\<close>

definition digit_value :: "char \<Rightarrow> int" where
  "digit_value c = int (of_char c) - 48"

definition py_int :: "string \<Rightarrow> error + int" where
  "py_int s =
     (if s = [] \<or> \<not> list_all py_isdecimal s
      then Inl (ValueError (''invalid literal for int() with base 10: '' @ s))
      else Inr (foldl (\<lambda>acc c. 10 * acc + digit_value c) 0 s))"

subsection \<open>Version ordering\<close>

text \<open>The body of the \<^verbatim>\<open>for p in parts[:3]\<close> loop: the digits of the field, \<^verbatim>\<open>"0"\<close>
  when there are none, converted by \<^verbatim>\<open>int\<close>; any exception appends 0.\<close>

definition field_number :: "string \<Rightarrow> int" where
  "field_number p =
     (let digits = filter py_isdigit p in
      case py_int (if digits = [] then ''0'' else digits) of
        Inr n \<Rightarrow> n
      | Inl _ \<Rightarrow> 0)"

fun parse_fields :: "int list \<Rightarrow> string list \<Rightarrow> int list" where
  "parse_fields nums [] = nums"
| "parse_fields nums (p # ps) = parse_fields (nums @ [field_number p]) ps"

text \<open>\<^verbatim>\<open>while len(nums) < 3: nums.append(0)\<close>\<close>

function pad_nums :: "int list \<Rightarrow> int list" where
  "pad_nums nums = (if length nums < 3 then pad_nums (nums @ [0]) else nums)"
  by pat_completeness auto
termination
  by (relation "measure (\<lambda>nums. 3 - length nums)") auto

text \<open>\<^verbatim>\<open>_parse_version(v)\<close>; \<open>None\<close> is Python's \<^verbatim>\<open>None\<close>, which \<^verbatim>\<open>v or "0"\<close> replaces
  as it does the empty string. The tuple returned is the list of its components.\<close>

definition parse_version :: "string option \<Rightarrow> int list" where
  "parse_version v =
     (let s = (case v of None \<Rightarrow> ''0'' | Some x \<Rightarrow> if x = [] then ''0'' else x);
          parts = split_on (CHR ''.'') (py_strip s)
      in pad_nums (parse_fields [] (take 3 parts)))"

text \<open>Python's \<^verbatim>\<open>></\<close> on tuples: the first position where the two differ decides,
  and a proper extension is greater than its prefix.\<close>

fun tuple_gt :: "int list \<Rightarrow> int list \<Rightarrow> bool" where
  "tuple_gt [] ys = False"
| "tuple_gt (x # xs) [] = True"
| "tuple_gt (x # xs) (y # ys) = (if x = y then tuple_gt xs ys else x > y)"

text \<open>The parser in the words of the specification: split on the dot, take up to three
  fields, strip the non-digit characters of each, read the rest as an integer (0 when
  empty or unparsable), pad with 0 to three components.\<close>

definition spec_field :: "string \<Rightarrow> int" where
  "spec_field f = (case py_int (filter py_isdigit f) of Inr n \<Rightarrow> n | Inl _ \<Rightarrow> 0)"

definition spec_parse :: "string \<Rightarrow> int list" where
  "spec_parse v =
     (let nums = map spec_field (take 3 (split_on (CHR ''.'') v))
      in nums @ replicate (3 - length nums) 0)"

subsection \<open>Sequencing of calls that may raise\<close>

definition bind_err :: "error + 'a \<Rightarrow> ('a \<Rightarrow> error + 'b) \<Rightarrow> error + 'b" where
  "bind_err m f = (case m of Inl e \<Rightarrow> Inl e | Inr x \<Rightarrow> f x)"

subsection \<open>JSON values and the library\<close>

text \<open>What \<^verbatim>\<open>json.loads\<close> returns. A number is kept as its literal: the code never
  computes with one. An object is the list of its members, read with \<open>map_of\<close>.\<close>

datatype json =
    JNull
  | JBool bool
  | JNum string
  | JStr string
  | JArr "json list"
  | JObj "(string \<times> json) list"

type_synonym bytes = "8 word list"

record pylib =
  sha256_digest :: "bytes \<Rightarrow> bytes"
  utf8_decode :: "bytes \<Rightarrow> error + string"
  json_loads :: "string \<Rightarrow> error + json"
  py_repr :: "json \<Rightarrow> string"

text \<open>\<^verbatim>\<open>str(x)\<close>: a string is itself, \<^verbatim>\<open>None\<close>, \<^verbatim>\<open>True\<close> and \<^verbatim>\<open>False\<close> are their names,
  and a number, a list or a dict is what the library's \<^verbatim>\<open>repr\<close> prints.\<close>

definition py_str :: "pylib \<Rightarrow> json \<Rightarrow> string" where
  "py_str L x =
     (case x of
        JStr s \<Rightarrow> s
      | JNull \<Rightarrow> ''None''
      | JBool b \<Rightarrow> (if b then ''True'' else ''False'')
      | _ \<Rightarrow> py_repr L x)"

text \<open>\<^verbatim>\<open>x[k]\<close> for a string \<open>k\<close>: only a dict can be indexed by a string.\<close>

definition py_getitem :: "json \<Rightarrow> string \<Rightarrow> error + json" where
  "py_getitem x k =
     (case x of
        JObj kvs \<Rightarrow> (case map_of kvs k of None \<Rightarrow> Inl (KeyError k) | Some v \<Rightarrow> Inr v)
      | _ \<Rightarrow> Inl TypeError)"

text \<open>\<^verbatim>\<open>x.get\<close>, the attribute: only a dict has it.\<close>

definition py_get_method :: "json \<Rightarrow> error + (string \<Rightarrow> json \<Rightarrow> json)" where
  "py_get_method x =
     (case x of
        JObj kvs \<Rightarrow> Inr (\<lambda>k d. case map_of kvs k of None \<Rightarrow> d | Some v \<Rightarrow> v)
      | _ \<Rightarrow> Inl AttributeError)"

text \<open>\<^verbatim>\<open>x.get(k, d)\<close> with a default that cannot raise.\<close>

definition py_get :: "json \<Rightarrow> string \<Rightarrow> json \<Rightarrow> error + json" where
  "py_get x k d = bind_err (py_get_method x) (\<lambda>get. Inr (get k d))"

text \<open>\<^verbatim>\<open>for p in x\<close>: the elements of a list, the keys of a dict, the characters of a
  string; nothing else can be iterated.\<close>

definition py_iter :: "json \<Rightarrow> error + json list" where
  "py_iter x =
     (case x of
        JArr xs \<Rightarrow> Inr xs
      | JObj kvs \<Rightarrow> Inr (map JStr (remdups (map fst kvs)))
      | JStr s \<Rightarrow> Inr (map (\<lambda>c. JStr [c]) s)
      | _ \<Rightarrow> Inl TypeError)"

subsection \<open>Content addressing\<close>

definition hex_char :: "nat \<Rightarrow> char" where
  "hex_char n = ''0123456789abcdef'' ! (n mod 16)"

definition hex_byte :: "8 word \<Rightarrow> string" where
  "hex_byte b = [hex_char (unat b div 16), hex_char (unat b mod 16)]"

text \<open>\<^verbatim>\<open>h = hashlib.sha256(); h.update(b); h.hexdigest()\<close>: the digest in lowercase
  hexadecimal.\<close>

definition hexdigest :: "pylib \<Rightarrow> bytes \<Rightarrow> string" where
  "hexdigest L b = concat (map hex_byte (sha256_digest L b))"

definition sha256_bytes :: "pylib \<Rightarrow> bytes \<Rightarrow> string" where
  "sha256_bytes L b = hexdigest L b"

subsection \<open>The file system\<close>

text \<open>A path is the list of its components from the root. A later binding of a path
  in the list is hidden by an earlier one. The root is always a directory. Besides files
  and directories there are two nodes for what the system refuses: \<open>Denied\<close> at a path
  says that every access to that path fails with \<^verbatim>\<open>PermissionError\<close>, which is how the
  paths below a directory that may not be searched behave; \<open>Unreadable\<close> is a file that
  can be found but not opened. Symbolic links are not modelled.\<close>

type_synonym path = "string list"

datatype node = File bytes | Dir | Denied | Unreadable

type_synonym filesystem = "(path \<times> node) list"

definition fs_lookup :: "filesystem \<Rightarrow> path \<Rightarrow> node option" where
  "fs_lookup fs p = (if p = [] then Some Dir else map_of fs p)"

text \<open>Two predicates on the state: there is a node at the path; the node is a
  directory.\<close>

definition path_exists :: "filesystem \<Rightarrow> path \<Rightarrow> bool" where
  "path_exists fs p = (fs_lookup fs p \<noteq> None)"

definition is_dir :: "filesystem \<Rightarrow> path \<Rightarrow> bool" where
  "is_dir fs p = (fs_lookup fs p = Some Dir)"

text \<open>\<^verbatim>\<open>p.exists()\<close> and \<^verbatim>\<open>p.is_dir()\<close> as \<^verbatim>\<open>pathlib\<close> has them: \<^verbatim>\<open>stat\<close> the path,
  answer \<^verbatim>\<open>False\<close> when it is not there, and let every other \<^verbatim>\<open>OSError\<close> through.\<close>

definition py_exists :: "filesystem \<Rightarrow> path \<Rightarrow> error + bool" where
  "py_exists fs p =
     (case fs_lookup fs p of
        Some Denied \<Rightarrow> Inl PermissionError
      | Some _ \<Rightarrow> Inr True
      | None \<Rightarrow> Inr False)"

definition py_is_dir :: "filesystem \<Rightarrow> path \<Rightarrow> error + bool" where
  "py_is_dir fs p =
     (case fs_lookup fs p of
        Some Denied \<Rightarrow> Inl PermissionError
      | Some Dir \<Rightarrow> Inr True
      | _ \<Rightarrow> Inr False)"

text \<open>\<^verbatim>\<open>p.name\<close>, the last component.\<close>

definition path_name :: "path \<Rightarrow> string" where
  "path_name p = (if p = [] then [] else last p)"

text \<open>\<^verbatim>\<open>p.iterdir()\<close>: the paths one component below \<open>p\<close>.\<close>

definition iterdir :: "filesystem \<Rightarrow> path \<Rightarrow> error + path list" where
  "iterdir fs p =
     (case fs_lookup fs p of
        None \<Rightarrow> Inl FileNotFoundError
      | Some (File _) \<Rightarrow> Inl NotADirectoryError
      | Some Unreadable \<Rightarrow> Inl NotADirectoryError
      | Some Denied \<Rightarrow> Inl PermissionError
      | Some Dir \<Rightarrow> Inr (remdups (filter (\<lambda>q. q \<noteq> [] \<and> butlast q = p) (map fst fs))))"

definition read_bytes :: "filesystem \<Rightarrow> path \<Rightarrow> error + bytes" where
  "read_bytes fs p =
     (case fs_lookup fs p of
        Some (File b) \<Rightarrow> Inr b
      | Some Dir \<Rightarrow> Inl IsADirectoryError
      | Some Denied \<Rightarrow> Inl PermissionError
      | Some Unreadable \<Rightarrow> Inl PermissionError
      | None \<Rightarrow>
          (case fs_lookup fs (butlast p) of
             Some (File _) \<Rightarrow> Inl NotADirectoryError
           | Some Unreadable \<Rightarrow> Inl NotADirectoryError
           | Some Denied \<Rightarrow> Inl PermissionError
           | _ \<Rightarrow> Inl FileNotFoundError))"

text \<open>\<^verbatim>\<open>p.read_text(encoding="utf-8")\<close>\<close>

definition read_text :: "pylib \<Rightarrow> filesystem \<Rightarrow> path \<Rightarrow> error + string" where
  "read_text L fs p = bind_err (read_bytes fs p) (utf8_decode L)"

definition write_bytes :: "filesystem \<Rightarrow> path \<Rightarrow> bytes \<Rightarrow> error + filesystem" where
  "write_bytes fs p b =
     (case fs_lookup fs p of
        Some Dir \<Rightarrow> Inl IsADirectoryError
      | Some Denied \<Rightarrow> Inl PermissionError
      | Some Unreadable \<Rightarrow> Inl PermissionError
      | Some (File _) \<Rightarrow> Inr ((p, File b) # fs)
      | None \<Rightarrow>
          (case fs_lookup fs (butlast p) of
             Some Dir \<Rightarrow> Inr ((p, File b) # fs)
           | Some (File _) \<Rightarrow> Inl NotADirectoryError
           | Some Unreadable \<Rightarrow> Inl NotADirectoryError
           | Some Denied \<Rightarrow> Inl PermissionError
           | None \<Rightarrow> Inl FileNotFoundError))"

text \<open>\<^verbatim>\<open>os.mkdir(p)\<close>\<close>

definition os_mkdir :: "filesystem \<Rightarrow> path \<Rightarrow> error + filesystem" where
  "os_mkdir fs p =
     (case fs_lookup fs p of
        Some Denied \<Rightarrow> Inl PermissionError
      | Some _ \<Rightarrow> Inl FileExistsError
      | None \<Rightarrow>
          (case fs_lookup fs (butlast p) of
             Some Dir \<Rightarrow> Inr ((p, Dir) # fs)
           | Some (File _) \<Rightarrow> Inl NotADirectoryError
           | Some Unreadable \<Rightarrow> Inl NotADirectoryError
           | Some Denied \<Rightarrow> Inl PermissionError
           | None \<Rightarrow> Inl FileNotFoundError))"

text \<open>\<^verbatim>\<open>p.mkdir(parents=False, exist_ok=True)\<close>: an \<^verbatim>\<open>OSError\<close> other than
  \<^verbatim>\<open>FileNotFoundError\<close> is dropped when \<^verbatim>\<open>p.is_dir()\<close> answers \<^verbatim>\<open>True\<close>.\<close>

definition mkdir_exist_ok :: "filesystem \<Rightarrow> path \<Rightarrow> error + filesystem" where
  "mkdir_exist_ok fs p =
     (case os_mkdir fs p of
        Inr fs' \<Rightarrow> Inr fs'
      | Inl e \<Rightarrow>
          if e = FileNotFoundError then Inl e
          else (case py_is_dir fs p of
                  Inl e' \<Rightarrow> Inl e'
                | Inr isd \<Rightarrow> if isd then Inr fs else Inl e))"

text \<open>\<^verbatim>\<open>p.mkdir(parents=True, exist_ok=True)\<close>, as \<^verbatim>\<open>pathlib\<close> does it: try
  \<^verbatim>\<open>os.mkdir\<close>; on \<^verbatim>\<open>FileNotFoundError\<close> make the parent the same way, then the
  directory itself.\<close>

function mkdir_parents :: "filesystem \<Rightarrow> path \<Rightarrow> error + filesystem" where
  "mkdir_parents fs p =
     (if p \<noteq> [] \<and> os_mkdir fs p = Inl FileNotFoundError
      then (case mkdir_parents fs (butlast p) of
              Inl e \<Rightarrow> Inl e
            | Inr fs' \<Rightarrow> mkdir_exist_ok fs' p)
      else mkdir_exist_ok fs p)"
  by pat_completeness auto
termination
  by (relation "measure (\<lambda>(fs, p). length p)") auto

subsubsection \<open>Paths made from a caller's string\<close>

text \<open>\<^verbatim>\<open>p / s\<close> on POSIX: the components of \<open>s\<close> are what stands between its slashes,
  without the empty ones and the dots; \<^verbatim>\<open>..\<close> stays. A string that starts with a slash
  is absolute and replaces \<open>p\<close>.\<close>

definition path_parts :: "string \<Rightarrow> path" where
  "path_parts s = filter (\<lambda>x. x \<noteq> [] \<and> x \<noteq> ''.'') (split_on (CHR ''/'') s)"

definition joinpath :: "path \<Rightarrow> string \<Rightarrow> path" where
  "joinpath p s = (if s \<noteq> [] \<and> hd s = CHR ''/'' then path_parts s else p @ path_parts s)"

text \<open>What the system makes of such a path, component by component from the root: each
  step needs a directory to start from, and \<^verbatim>\<open>..\<close> steps to the parent.\<close>

fun os_walk :: "filesystem \<Rightarrow> path \<Rightarrow> path \<Rightarrow> error + path" where
  "os_walk fs cur [] = Inr cur"
| "os_walk fs cur (c # cs) =
     (case fs_lookup fs cur of
        Some Dir \<Rightarrow> os_walk fs (if c = ''..'' then butlast cur else cur @ [c]) cs
      | Some (File _) \<Rightarrow> Inl NotADirectoryError
      | Some Unreadable \<Rightarrow> Inl NotADirectoryError
      | Some Denied \<Rightarrow> Inl PermissionError
      | None \<Rightarrow> Inl FileNotFoundError)"

text \<open>A path with a null character is refused before the system sees it.\<close>

definition embedded_null :: "path \<Rightarrow> bool" where
  "embedded_null p = list_ex (\<lambda>c. CHR 0x00 \<in> set c) p"

definition resolve_path :: "filesystem \<Rightarrow> path \<Rightarrow> error + path" where
  "resolve_path fs p =
     (if embedded_null p then Inl (ValueError ''embedded null byte'')
      else os_walk fs [] p)"

text \<open>\<^verbatim>\<open>p.exists()\<close> and \<^verbatim>\<open>p.read_text(encoding="utf-8")\<close> on such a path. \<^verbatim>\<open>exists\<close>
  answers \<^verbatim>\<open>False\<close> on \<^verbatim>\<open>FileNotFoundError\<close>, \<^verbatim>\<open>NotADirectoryError\<close> and \<^verbatim>\<open>ValueError\<close>.\<close>

definition exists_resolved :: "filesystem \<Rightarrow> path \<Rightarrow> error + bool" where
  "exists_resolved fs p =
     (case resolve_path fs p of
        Inr q \<Rightarrow> py_exists fs q
      | Inl FileNotFoundError \<Rightarrow> Inr False
      | Inl NotADirectoryError \<Rightarrow> Inr False
      | Inl (ValueError _) \<Rightarrow> Inr False
      | Inl e \<Rightarrow> Inl e)"

definition read_text_resolved :: "pylib \<Rightarrow> filesystem \<Rightarrow> path \<Rightarrow> error + string" where
  "read_text_resolved L fs p = bind_err (resolve_path fs p) (read_text L fs)"

text \<open>\<^verbatim>\<open>p.is_dir()\<close>, \<^verbatim>\<open>os.mkdir(p)\<close>, the two forms of \<^verbatim>\<open>p.mkdir\<close> and
  \<^verbatim>\<open>p.write_bytes(b)\<close> on such a path. The system resolves all components but the
  last and acts on the last one there; a last component \<^verbatim>\<open>..\<close> names a directory that
  exists. \<^verbatim>\<open>pathlib\<close> takes the parent of a path by dropping its last component,
  whatever it is.\<close>

definition py_is_dir_resolved :: "filesystem \<Rightarrow> path \<Rightarrow> error + bool" where
  "py_is_dir_resolved fs p =
     (case resolve_path fs p of
        Inr q \<Rightarrow> py_is_dir fs q
      | Inl FileNotFoundError \<Rightarrow> Inr False
      | Inl NotADirectoryError \<Rightarrow> Inr False
      | Inl (ValueError _) \<Rightarrow> Inr False
      | Inl e \<Rightarrow> Inl e)"

definition os_mkdir_resolved :: "filesystem \<Rightarrow> path \<Rightarrow> error + filesystem" where
  "os_mkdir_resolved fs p =
     (if p = [] then Inl FileExistsError
      else if last p = ''..''
      then (case resolve_path fs p of Inl e \<Rightarrow> Inl e | Inr _ \<Rightarrow> Inl FileExistsError)
      else (case resolve_path fs (butlast p) of
              Inl e \<Rightarrow> Inl e
            | Inr parent \<Rightarrow>
                if embedded_null p then Inl (ValueError ''embedded null byte'')
                else os_mkdir fs (parent @ [last p])))"

definition mkdir_exist_ok_resolved :: "filesystem \<Rightarrow> path \<Rightarrow> error + filesystem" where
  "mkdir_exist_ok_resolved fs p =
     (case os_mkdir_resolved fs p of
        Inr fs' \<Rightarrow> Inr fs'
      | Inl FileNotFoundError \<Rightarrow> Inl FileNotFoundError
      | Inl (ValueError msg) \<Rightarrow> Inl (ValueError msg)
      | Inl e \<Rightarrow>
          (case py_is_dir_resolved fs p of
             Inl e' \<Rightarrow> Inl e'
           | Inr isd \<Rightarrow> if isd then Inr fs else Inl e))"

function mkdir_parents_resolved :: "filesystem \<Rightarrow> path \<Rightarrow> error + filesystem" where
  "mkdir_parents_resolved fs p =
     (if p \<noteq> [] \<and> os_mkdir_resolved fs p = Inl FileNotFoundError
      then (case mkdir_parents_resolved fs (butlast p) of
              Inl e \<Rightarrow> Inl e
            | Inr fs' \<Rightarrow> mkdir_exist_ok_resolved fs' p)
      else mkdir_exist_ok_resolved fs p)"
  by pat_completeness auto
termination
  by (relation "measure (\<lambda>(fs, p). length p)") auto

definition write_bytes_resolved :: "filesystem \<Rightarrow> path \<Rightarrow> bytes \<Rightarrow> error + filesystem" where
  "write_bytes_resolved fs p b =
     (if p = [] then Inl IsADirectoryError
      else if last p = ''..''
      then (case resolve_path fs p of Inl e \<Rightarrow> Inl e | Inr _ \<Rightarrow> Inl IsADirectoryError)
      else (case resolve_path fs (butlast p) of
              Inl e \<Rightarrow> Inl e
            | Inr parent \<Rightarrow>
                if embedded_null p then Inl (ValueError ''embedded null byte'')
                else write_bytes fs (parent @ [last p]) b))"

subsection \<open>The network\<close>

record request =
  req_url :: string
  req_headers :: "(string \<times> string) list"
  req_method :: string
  req_timeout :: nat

text \<open>The world a call runs in: the files, what the network answers to a request, and
  the requests sent so far.\<close>

record world =
  files :: filesystem
  respond :: "request \<Rightarrow> error + bytes"
  requests :: "request list"

definition https_only :: "string \<Rightarrow> error + unit" where
  "https_only u =
     (if \<not> startswith (py_lower u) ''https://''
      then Inl (ValueError (''Refusing non-HTTPS URL: '' @ u))
      else Inr ())"

text \<open>The request \<^verbatim>\<open>_fetch_bytes\<close> builds and the timeout it opens it with.\<close>

definition get_request :: "string \<Rightarrow> nat \<Rightarrow> request" where
  "get_request u tmo =
     \<lparr>req_url = u,
      req_headers = [(''User-Agent'', ''Continuum/1.0 (Guidelines updater)'')],
      req_method = ''GET'',
      req_timeout = tmo\<rparr>"

definition fetch_bytes :: "world \<Rightarrow> string \<Rightarrow> nat \<Rightarrow> (error + bytes) \<times> world" where
  "fetch_bytes w u tmo =
     (case https_only u of
        Inl e \<Rightarrow> (Inl e, w)
      | Inr _ \<Rightarrow>
          (let req = get_request u tmo
           in (respond w req, w\<lparr>requests := requests w @ [req]\<rparr>)))"

definition fetch_json :: "pylib \<Rightarrow> world \<Rightarrow> string \<Rightarrow> (error + json) \<times> world" where
  "fetch_json L w u =
     (case fetch_bytes w u 15 of
        (Inl e, w') \<Rightarrow> (Inl e, w')
      | (Inr raw, w') \<Rightarrow> (bind_err (utf8_decode L raw) (json_loads L), w'))"

subsection \<open>Descriptors and the manager\<close>

record PackInfo =
  id' :: string
  title :: string
  version :: string
  manifest_url :: string
  rules_url :: string
  sha256_manifest :: string
  sha256_rules :: string

record PackUpdate =
  pack :: PackInfo
  installed_version :: "string option"

record GuidelinesManager =
  guidelines_dir :: path
  builtin_dir :: path

subsubsection \<open>\<^verbatim>\<open>ensure_builtin_installed\<close>\<close>

text \<open>\<^verbatim>\<open>for fname in ("manifest.json", "rules.json")\<close>\<close>

fun copy_files :: "filesystem \<Rightarrow> path \<Rightarrow> path \<Rightarrow> string list \<Rightarrow> (error + unit) \<times> filesystem" where
  "copy_files fs pack_dir dest [] = (Inr (), fs)"
| "copy_files fs pack_dir dest (fname # rest) =
     (let src = pack_dir @ [fname] in
      case py_exists fs src of
        Inl e \<Rightarrow> (Inl e, fs)
      | Inr ex \<Rightarrow>
          if ex
          then (case read_bytes fs src of
                  Inl e \<Rightarrow> (Inl e, fs)
                | Inr b \<Rightarrow>
                    (case write_bytes fs (dest @ [fname]) b of
                       Inl e \<Rightarrow> (Inl e, fs)
                     | Inr fs' \<Rightarrow> copy_files fs' pack_dir dest rest))
          else copy_files fs pack_dir dest rest)"

text \<open>\<^verbatim>\<open>for pack_dir in packs_dir.iterdir()\<close>\<close>

fun seed_loop :: "GuidelinesManager \<Rightarrow> filesystem \<Rightarrow> path list \<Rightarrow> (error + unit) \<times> filesystem" where
  "seed_loop self fs [] = (Inr (), fs)"
| "seed_loop self fs (pack_dir # rest) =
     (case py_is_dir fs pack_dir of
        Inl e \<Rightarrow> (Inl e, fs)
      | Inr isd \<Rightarrow>
          if \<not> isd then seed_loop self fs rest
          else (let dest = guidelines_dir self @ [path_name pack_dir] in
            case py_exists fs dest of
              Inl e \<Rightarrow> (Inl e, fs)
            | Inr ex \<Rightarrow>
                if ex then seed_loop self fs rest
                else (case mkdir_parents fs dest of
                        Inl e \<Rightarrow> (Inl e, fs)
                      | Inr fs1 \<Rightarrow>
                          (case copy_files fs1 pack_dir dest [''manifest.json'', ''rules.json''] of
                             (Inl e, fs2) \<Rightarrow> (Inl e, fs2)
                           | (Inr _, fs2) \<Rightarrow> seed_loop self fs2 rest))))"

definition ensure_builtin_installed :: "GuidelinesManager \<Rightarrow> filesystem \<Rightarrow> (error + unit) \<times> filesystem" where
  "ensure_builtin_installed self fs =
     (case py_exists fs (builtin_dir self) of
        Inl e \<Rightarrow> (Inl e, fs)
      | Inr ex1 \<Rightarrow>
     if \<not> ex1 then (Inr (), fs)
     else (let builtin_index = builtin_dir self @ [''index.json''] in
       case py_exists fs builtin_index of
         Inl e \<Rightarrow> (Inl e, fs)
       | Inr ex2 \<Rightarrow>
     if \<not> ex2 then (Inr (), fs)
     else (let packs_dir = builtin_dir self @ [''packs''] in
       case py_exists fs packs_dir of
         Inl e \<Rightarrow> (Inl e, fs)
       | Inr ex3 \<Rightarrow>
     if \<not> ex3 then (Inr (), fs)
     else (case iterdir fs packs_dir of
             Inl e \<Rightarrow> (Inl e, fs)
           | Inr ds \<Rightarrow> seed_loop self fs ds))))"

subsubsection \<open>\<^verbatim>\<open>list_installed\<close>\<close>

text \<open>The body of the \<^verbatim>\<open>try\<close>: the version string to store for the directory.\<close>

definition manifest_version :: "pylib \<Rightarrow> filesystem \<Rightarrow> path \<Rightarrow> error + string" where
  "manifest_version L fs m =
     bind_err (read_text L fs m) (\<lambda>text.
     bind_err (json_loads L text) (\<lambda>j.
     bind_err (py_get j ''version'' (JStr ''0.0.0'')) (\<lambda>v.
     Inr (py_str L v))))"

text \<open>The loop: \<^verbatim>\<open>d.is_dir()\<close> and \<^verbatim>\<open>m.exists()\<close> stand before the \<^verbatim>\<open>try\<close>, so what
  they raise ends the loop; what the body of the \<^verbatim>\<open>try\<close> raises is dropped and the
  loop goes on.\<close>

fun list_installed_loop ::
  "pylib \<Rightarrow> filesystem \<Rightarrow> (string \<rightharpoonup> string) \<Rightarrow> path list \<Rightarrow> error + (string \<rightharpoonup> string)" where
  "list_installed_loop L fs out [] = Inr out"
| "list_installed_loop L fs out (d # ds) =
     (case py_is_dir fs d of
        Inl e \<Rightarrow> Inl e
      | Inr isd \<Rightarrow>
          if \<not> isd then list_installed_loop L fs out ds
          else (let m = d @ [''manifest.json''] in
            case py_exists fs m of
              Inl e \<Rightarrow> Inl e
            | Inr ex \<Rightarrow>
                if \<not> ex then list_installed_loop L fs out ds
                else (case manifest_version L fs m of
                        Inr v \<Rightarrow> list_installed_loop L fs (out(path_name d \<mapsto> v)) ds
                      | Inl _ \<Rightarrow> list_installed_loop L fs out ds)))"

definition list_installed ::
  "pylib \<Rightarrow> GuidelinesManager \<Rightarrow> filesystem \<Rightarrow> error + (string \<rightharpoonup> string)" where
  "list_installed L self fs =
     (case iterdir fs (guidelines_dir self) of
        Inl e \<Rightarrow> Inl e
      | Inr ds \<Rightarrow> list_installed_loop L fs Map.empty ds)"

subsubsection \<open>\<^verbatim>\<open>read_pack_rules\<close>\<close>

text \<open>The pack id is the caller's string, joined to the store root as \<^verbatim>\<open>pathlib\<close>
  joins it.\<close>

definition read_pack_rules ::
  "pylib \<Rightarrow> GuidelinesManager \<Rightarrow> filesystem \<Rightarrow> string \<Rightarrow> error + json" where
  "read_pack_rules L self fs pack_id =
     (let rules_path = joinpath (joinpath (guidelines_dir self) pack_id) ''rules.json'' in
      case exists_resolved fs rules_path of
        Inl e \<Rightarrow> Inl e
      | Inr ex \<Rightarrow>
          if \<not> ex then Inr (JArr [])
          else bind_err (read_text_resolved L fs rules_path) (json_loads L))"

subsubsection \<open>\<^verbatim>\<open>fetch_index\<close>\<close>

text \<open>The \<^verbatim>\<open>PackInfo(...)\<close> expression for one entry \<open>p\<close>, its arguments evaluated in
  the order they are written.\<close>

definition pack_info :: "pylib \<Rightarrow> json \<Rightarrow> error + PackInfo" where
  "pack_info L p =
     bind_err (py_getitem p ''id'') (\<lambda>a_id.
     bind_err (py_get_method p) (\<lambda>get1.
     bind_err (py_getitem p ''id'') (\<lambda>dflt.
     let a_title = get1 ''title'' dflt in
     bind_err (py_get p ''version'' (JStr ''0.0.0'')) (\<lambda>a_version.
     bind_err (py_getitem p ''manifest_url'') (\<lambda>a_manifest_url.
     bind_err (py_getitem p ''rules_url'') (\<lambda>a_rules_url.
     bind_err (py_getitem p ''sha256_manifest'') (\<lambda>a_sha_m.
     bind_err (py_getitem p ''sha256_rules'') (\<lambda>a_sha_r.
     Inr \<lparr>id' = py_str L a_id,
          title = py_str L a_title,
          version = py_str L a_version,
          manifest_url = py_str L a_manifest_url,
          rules_url = py_str L a_rules_url,
          sha256_manifest = py_lower (py_str L a_sha_m),
          sha256_rules = py_lower (py_str L a_sha_r)\<rparr>))))))))"

fun fetch_index_loop :: "pylib \<Rightarrow> PackInfo list \<Rightarrow> json list \<Rightarrow> error + PackInfo list" where
  "fetch_index_loop L out [] = Inr out"
| "fetch_index_loop L out (p # ps) =
     (case pack_info L p of
        Inl e \<Rightarrow> Inl e
      | Inr d \<Rightarrow> fetch_index_loop L (out @ [d]) ps)"

text \<open>What \<^verbatim>\<open>fetch_index\<close> does with the parsed document.\<close>

definition index_packs :: "pylib \<Rightarrow> json \<Rightarrow> error + PackInfo list" where
  "index_packs L idx =
     bind_err (py_get idx ''packs'' (JArr [])) (\<lambda>packs.
     bind_err (py_iter packs) (fetch_index_loop L []))"

definition fetch_index :: "pylib \<Rightarrow> world \<Rightarrow> string \<Rightarrow> (error + PackInfo list) \<times> world" where
  "fetch_index L w index_url =
     (case fetch_json L w index_url of
        (Inl e, w') \<Rightarrow> (Inl e, w')
      | (Inr idx, w') \<Rightarrow> (index_packs L idx, w'))"

subsubsection \<open>\<^verbatim>\<open>check_updates\<close>\<close>

fun check_updates_loop ::
  "(string \<rightharpoonup> string) \<Rightarrow> PackUpdate list \<Rightarrow> PackInfo list \<Rightarrow> PackUpdate list" where
  "check_updates_loop installed updates [] = updates"
| "check_updates_loop installed updates (p # ps) =
     (case installed (id' p) of
        None \<Rightarrow>
          check_updates_loop installed (updates @ [\<lparr>pack = p, installed_version = None\<rparr>]) ps
      | Some local_v \<Rightarrow>
          if tuple_gt (parse_version (Some (version p))) (parse_version (Some local_v))
          then check_updates_loop installed
                 (updates @ [\<lparr>pack = p, installed_version = Some local_v\<rparr>]) ps
          else check_updates_loop installed updates ps)"

definition check_updates ::
  "pylib \<Rightarrow> GuidelinesManager \<Rightarrow> world \<Rightarrow> string \<Rightarrow> (error + PackUpdate list) \<times> world" where
  "check_updates L self w index_url =
     (case fetch_index L w index_url of
        (Inl e, w') \<Rightarrow> (Inl e, w')
      | (Inr remote, w') \<Rightarrow>
          (case list_installed L self (files w') of
             Inl e \<Rightarrow> (Inl e, w')
           | Inr installed \<Rightarrow> (Inr (check_updates_loop installed [] remote), w')))"

subsubsection \<open>\<^verbatim>\<open>install_pack\<close>\<close>

text \<open>The destination is \<^verbatim>\<open>guidelines_dir / pack.id\<close>, the id being a string of the
  catalog: it is joined as \<^verbatim>\<open>pathlib\<close> joins it, and the directory and the two files
  are made where the system resolves the joined paths.\<close>

definition install_pack ::
  "pylib \<Rightarrow> GuidelinesManager \<Rightarrow> world \<Rightarrow> PackInfo \<Rightarrow> (error + unit) \<times> world" where
  "install_pack L self w pk =
     (case fetch_bytes w (manifest_url pk) 15 of
        (Inl e, w1) \<Rightarrow> (Inl e, w1)
      | (Inr manifest_bytes, w1) \<Rightarrow>
     (case fetch_bytes w1 (rules_url pk) 15 of
        (Inl e, w2) \<Rightarrow> (Inl e, w2)
      | (Inr rules_bytes, w2) \<Rightarrow>
     if sha256_bytes L manifest_bytes \<noteq> sha256_manifest pk
     then (Inl (ValueError (''manifest SHA mismatch for '' @ id' pk)), w2)
     else if sha256_bytes L rules_bytes \<noteq> sha256_rules pk
     then (Inl (ValueError (''rules SHA mismatch for '' @ id' pk)), w2)
     else (let dest = joinpath (guidelines_dir self) (id' pk) in
       case mkdir_parents_resolved (files w2) dest of
         Inl e \<Rightarrow> (Inl e, w2)
       | Inr fs1 \<Rightarrow>
       (case write_bytes_resolved fs1 (joinpath dest ''manifest.json'') manifest_bytes of
          Inl e \<Rightarrow> (Inl e, w2\<lparr>files := fs1\<rparr>)
        | Inr fs2 \<Rightarrow>
       (case write_bytes_resolved fs2 (joinpath dest ''rules.json'') rules_bytes of
          Inl e \<Rightarrow> (Inl e, w2\<lparr>files := fs2\<rparr>)
        | Inr fs3 \<Rightarrow> (Inr (), w2\<lparr>files := fs3\<rparr>))))))"

subsection \<open>The index builder\<close>

text \<open>\<^verbatim>\<open>sha256_file(p)\<close> of \<^verbatim>\<open>build_index.py\<close>\<close>

definition sha256_file :: "pylib \<Rightarrow> filesystem \<Rightarrow> path \<Rightarrow> error + string" where
  "sha256_file L fs p = bind_err (read_bytes fs p) (\<lambda>b. Inr (hexdigest L b))"

definition BASE :: string where
  "BASE = ''https://raw.githubusercontent.com/EnjiMD/Continuum/main/docs''"

text \<open>The body of the loop of \<^verbatim>\<open>main\<close> for one pack directory: \<open>None\<close> when the
  directory is skipped, else the entry appended to \<^verbatim>\<open>packs_out\<close>.\<close>

definition index_entry :: "pylib \<Rightarrow> filesystem \<Rightarrow> path \<Rightarrow> error + json option" where
  "index_entry L fs pack_dir =
     (let manifest = pack_dir @ [''manifest.json''];
          rules = pack_dir @ [''rules.json''] in
      bind_err (py_exists fs manifest) (\<lambda>ex_m.
      bind_err (if ex_m then py_exists fs rules else Inr False) (\<lambda>both.
      if \<not> both then Inr None
      else
        bind_err (read_text L fs manifest) (\<lambda>text.
        bind_err (json_loads L text) (\<lambda>m.
        bind_err (py_get m ''id'' (JStr (path_name pack_dir))) (\<lambda>pid.
        bind_err (py_get m ''title'' pid) (\<lambda>ttl.
        bind_err (py_get m ''version'' (JStr ''0.0.0'')) (\<lambda>ver.
        bind_err (sha256_file L fs manifest) (\<lambda>sha_m.
        bind_err (sha256_file L fs rules) (\<lambda>sha_r.
        Inr (Some (JObj
          [(''id'', pid),
           (''title'', ttl),
           (''version'', ver),
           (''manifest_url'', JStr (BASE @ ''/packs/'' @ path_name pack_dir @ ''/manifest.json'')),
           (''rules_url'', JStr (BASE @ ''/packs/'' @ path_name pack_dir @ ''/rules.json'')),
           (''sha256_manifest'', JStr sha_m),
           (''sha256_rules'', JStr sha_r)]))))))))))))"

subsection \<open>Notions of the specification\<close>

text \<open>The scheme of a URL, in lowercase: what stands before its first colon.\<close>

definition spec_url_scheme :: "string \<Rightarrow> string option" where
  "spec_url_scheme u =
     (if CHR '':'' \<in> set u then Some (py_lower (takeWhile (\<lambda>c. c \<noteq> CHR '':'') u)) else None)"

text \<open>The planner in the words of the specification: the descriptors whose id is not
  installed or whose version is strictly greater than the installed one, in the
  catalog's order, each with the installed version if there is one.\<close>

definition spec_needs_update :: "(string \<rightharpoonup> string) \<Rightarrow> PackInfo \<Rightarrow> bool" where
  "spec_needs_update installed p =
     (case installed (id' p) of
        None \<Rightarrow> True
      | Some local_v \<Rightarrow> tuple_gt (parse_version (Some (version p))) (parse_version (Some local_v)))"

definition spec_plan_updates :: "PackInfo list \<Rightarrow> (string \<rightharpoonup> string) \<Rightarrow> PackUpdate list" where
  "spec_plan_updates remote installed =
     map (\<lambda>p. \<lparr>pack = p, installed_version = installed (id' p)\<rparr>)
       (filter (spec_needs_update installed) remote)"

text \<open>The descriptor of a catalog entry in the words of the specification: none when
  the entry is not an object or lacks a required field; else the fields as strings, the
  title defaulting to the id, the version to \<^verbatim>\<open>"0.0.0"\<close>, the digests in lowercase.\<close>

definition spec_descriptor :: "pylib \<Rightarrow> json \<Rightarrow> PackInfo option" where
  "spec_descriptor L p =
     (case p of
        JObj kvs \<Rightarrow>
          (case (map_of kvs ''id'', map_of kvs ''manifest_url'', map_of kvs ''rules_url'',
                 map_of kvs ''sha256_manifest'', map_of kvs ''sha256_rules'') of
             (Some i, Some mu, Some ru, Some sm, Some sr) \<Rightarrow>
               Some \<lparr>id' = py_str L i,
                     title = (case map_of kvs ''title'' of
                                None \<Rightarrow> py_str L i | Some t \<Rightarrow> py_str L t),
                     version = (case map_of kvs ''version'' of
                                  None \<Rightarrow> ''0.0.0'' | Some v \<Rightarrow> py_str L v),
                     manifest_url = py_str L mu,
                     rules_url = py_str L ru,
                     sha256_manifest = py_lower (py_str L sm),
                     sha256_rules = py_lower (py_str L sr)\<rparr>
           | _ \<Rightarrow> None)
      | _ \<Rightarrow> None)"

text \<open>The installed map in the words of the specification: the version of the
  subdirectory \<open>name\<close> of the store root when it has a manifest document that can be
  read, decoded and parsed to an object, none otherwise.\<close>

definition spec_installed ::
  "pylib \<Rightarrow> GuidelinesManager \<Rightarrow> filesystem \<Rightarrow> string \<Rightarrow> string option" where
  "spec_installed L self fs name =
     (let d = guidelines_dir self @ [name] in
      if is_dir fs d
      then (case read_bytes fs (d @ [''manifest.json'']) of
              Inr b \<Rightarrow>
                (case utf8_decode L b of
                   Inr text \<Rightarrow>
                     (case json_loads L text of
                        Inr (JObj kvs) \<Rightarrow>
                          Some (case map_of kvs ''version'' of
                                  None \<Rightarrow> ''0.0.0'' | Some v \<Rightarrow> py_str L v)
                      | _ \<Rightarrow> None)
                 | Inl _ \<Rightarrow> None)
            | Inl _ \<Rightarrow> None)
      else None)"

subsection \<open>Example data\<close>

text \<open>A small library, store and network on which the statements below are run: bytes
  decode as ASCII, the parser knows six documents, and the digest is a stand-in of two
  bytes.\<close>

definition ascii_bytes :: "string \<Rightarrow> bytes" where
  "ascii_bytes s = map (\<lambda>c. of_nat (of_char c)) s"

definition ascii_decode :: "bytes \<Rightarrow> error + string" where
  "ascii_decode b =
     (if list_all (\<lambda>w. w < 128) b then Inr (map (\<lambda>w. char_of (unat w)) b)
      else Inl UnicodeDecodeError)"

definition demo_entry :: json where
  "demo_entry =
     JObj [(''id'', JStr ''core''),
           (''manifest_url'', JStr ''https://example/m''),
           (''rules_url'', JStr ''https://example/r''),
           (''sha256_manifest'', JStr ''02AB''),
           (''sha256_rules'', JStr ''02ab'')]"

definition demo_catalog_text :: string where
  \<open>demo_catalog_text =
     ''{"packs": [{"id": "core", "manifest_url": "https://example/m", '' @
     ''"rules_url": "https://example/r", "sha256_manifest": "02AB", "sha256_rules": "02ab"}]}''\<close>

definition demo_catalog :: json where
  "demo_catalog = JObj [(''packs'', JArr [demo_entry])]"

definition demo_bad_catalog_text :: string where
  \<open>demo_bad_catalog_text =
     ''{"packs": [{"id": "core", "manifest_url": "https://example/m", '' @
     ''"rules_url": "https://example/r", "sha256_manifest": "02AB", "sha256_rules": "02ab"}, '' @
     ''{"id": "B", "title": "B"}]}''\<close>

definition demo_bad_catalog :: json where
  "demo_bad_catalog =
     JObj [(''packs'', JArr [demo_entry, JObj [(''id'', JStr ''B''), (''title'', JStr ''B'')]])]"

definition demo_loads :: "string \<Rightarrow> error + json" where
  \<open>demo_loads s =
     (if s = ''[]'' then Inr (JArr [])
      else if s = ''{}'' then Inr (JObj [])
      else if s = ''{"version": "1.2.0"}'' then Inr (JObj [(''version'', JStr ''1.2.0'')])
      else if s = ''{"version": "2.0.0"}'' then Inr (JObj [(''version'', JStr ''2.0.0'')])
      else if s = demo_catalog_text then Inr demo_catalog
      else if s = demo_bad_catalog_text then Inr demo_bad_catalog
      else Inl JSONDecodeError)\<close>

definition demo_lib :: pylib where
  "demo_lib =
     \<lparr>sha256_digest = (\<lambda>b. [of_nat (length b), 0xAB]),
      utf8_decode = ascii_decode,
      json_loads = demo_loads,
      py_repr = (\<lambda>_. ''?'')\<rparr>"

definition demo_manager :: GuidelinesManager where
  "demo_manager =
     \<lparr>guidelines_dir = [''data'', ''guidelines''],
      builtin_dir = [''app'', ''guidelines_builtin'']\<rparr>"

definition demo_fs :: filesystem where
  \<open>demo_fs =
     [([''data''], Dir),
      ([''data'', ''guidelines''], Dir),
      ([''data'', ''guidelines'', ''core''], Dir),
      ([''data'', ''guidelines'', ''core'', ''manifest.json''],
         File (ascii_bytes ''{"version": "1.2.0"}'')),
      ([''data'', ''guidelines'', ''core'', ''rules.json''], File (ascii_bytes ''[]'')),
      ([''data'', ''guidelines'', ''broken''], Dir),
      ([''data'', ''guidelines'', ''broken'', ''manifest.json''], File (ascii_bytes ''{'')),
      ([''data'', ''guidelines'', ''broken'', ''rules.json''], File (ascii_bytes ''{'')),
      ([''data'', ''guidelines'', ''sealed''], Dir),
      ([''data'', ''guidelines'', ''sealed'', ''manifest.json''], Unreadable),
      ([''app''], Dir),
      ([''app'', ''guidelines_builtin''], Dir),
      ([''app'', ''guidelines_builtin'', ''index.json''], File (ascii_bytes ''{}'')),
      ([''app'', ''guidelines_builtin'', ''packs''], Dir),
      ([''app'', ''guidelines_builtin'', ''packs'', ''core''], Dir),
      ([''app'', ''guidelines_builtin'', ''packs'', ''core'', ''manifest.json''],
         File (ascii_bytes ''{"version": "2.0.0"}'')),
      ([''app'', ''guidelines_builtin'', ''packs'', ''core'', ''rules.json''],
         File (ascii_bytes ''[]'')),
      ([''app'', ''guidelines_builtin'', ''packs'', ''extra''], Dir),
      ([''app'', ''guidelines_builtin'', ''packs'', ''extra'', ''manifest.json''],
         File (ascii_bytes ''{}'')),
      ([''app'', ''guidelines_builtin'', ''packs'', ''extra'', ''rules.json''],
         File (ascii_bytes ''[]''))]\<close>

text \<open>The same store with one more subdirectory, which may not be searched.\<close>

definition locked_fs :: filesystem where
  "locked_fs =
     ([''data'', ''guidelines'', ''locked''], Dir) #
     ([''data'', ''guidelines'', ''locked'', ''manifest.json''], Denied) #
     ([''data'', ''guidelines'', ''locked'', ''rules.json''], Denied) #
     demo_fs"

definition demo_world :: world where
  "demo_world =
     \<lparr>files = demo_fs,
      respond = (\<lambda>r. if req_url r = ''https://example/m'' then Inr (ascii_bytes ''{}'')
                     else if req_url r = ''https://example/r'' then Inr (ascii_bytes ''[]'')
                     else if req_url r = ''https://example/index.json''
                       then Inr (ascii_bytes demo_catalog_text)
                     else if req_url r = ''https://example/bad.json''
                       then Inr (ascii_bytes demo_bad_catalog_text)
                     else Inl URLError),
      requests = []\<rparr>"

definition demo_pack :: PackInfo where
  "demo_pack =
     \<lparr>id' = ''core'', title = ''Core'', version = ''2.0.0'',
      manifest_url = ''https://example/m'', rules_url = ''https://example/r'',
      sha256_manifest = ''02ab'', sha256_rules = ''ffff''\<rparr>"

definition demo_pack_B :: PackInfo where
  "demo_pack_B =
     \<lparr>id' = ''B'', title = ''B'', version = ''2.0.0'',
      manifest_url = ''https://example/B/m'', rules_url = ''https://example/B/r'',
      sha256_manifest = ''02ab'', sha256_rules = ''02ab''\<rparr>"

declare pad_nums.simps [simp del]

declare mkdir_parents.simps [simp del]

declare mkdir_parents_resolved.simps [simp del]

section \<open>Properties\<close>

subsection \<open>Version ordering\<close>

lemma split_on_ne: "split_on sep s \<noteq> []"
  by (induction s) (auto split: list.splits)

lemma pad_nums_eq: "pad_nums nums = nums @ replicate (3 - length nums) 0"
proof (induction nums rule: pad_nums.induct)
  case (1 nums)
  show ?case
  proof (cases "length nums < 3")
    case True
    then have "pad_nums nums = pad_nums (nums @ [0])" by (subst pad_nums.simps) simp
    also have "\<dots> = (nums @ [0]) @ replicate (3 - length (nums @ [0])) 0"
      using 1 True by simp
    also have "\<dots> = nums @ replicate (3 - length nums) 0"
      using True by (simp add: replicate_app_Cons_same Suc_diff_Suc flip: replicate_Suc)
    finally show ?thesis .
  next
    case False
    then show ?thesis by (subst pad_nums.simps) simp
  qed
qed

lemma parse_fields_eq: "parse_fields nums ps = nums @ map field_number ps"
  by (induction ps arbitrary: nums) auto

lemma py_int_zero: "py_int ''0'' = Inr 0"
  by (simp add: py_int_def py_isdecimal_def digit_value_def)

lemma field_number_spec: "field_number p = spec_field p"
proof (cases "filter py_isdigit p = []")
  case True
  then show ?thesis
    by (simp add: field_number_def spec_field_def py_int_zero) (simp add: py_int_def)
next
  case False
  then show ?thesis
    by (simp add: field_number_def spec_field_def)
qed

lemma spec_field_filter: "spec_field (filter py_isdigit f) = spec_field f"
  by (simp add: spec_field_def)

lemma dot_not_digit: "\<not> py_isdigit (CHR ''.'')"
  by (simp add: py_isdigit_def)

lemma space_not_digit: "py_isspace c \<Longrightarrow> \<not> py_isdigit c"
  by (auto simp: py_isspace_def py_isdigit_def Let_def)

lemma space_not_dot: "py_isspace c \<Longrightarrow> c \<noteq> CHR ''.''"
  by (auto simp: py_isspace_def)

lemma digits_of_fields:
  "map (filter py_isdigit) (split_on (CHR ''.'') s) =
   map (filter py_isdigit) (split_on (CHR ''.'') (filter (\<lambda>c. py_isdigit c \<or> c = CHR ''.'') s))"
proof (induction s)
  case Nil
  show ?case by simp
next
  case (Cons c s)
  obtain f fs where f: "split_on (CHR ''.'') s = f # fs"
    using split_on_ne by (cases "split_on (CHR ''.'') s") auto
  obtain g gs where g: "split_on (CHR ''.'') (filter (\<lambda>c. py_isdigit c \<or> c = CHR ''.'') s) = g # gs"
    using split_on_ne by (cases "split_on (CHR ''.'') (filter (\<lambda>c. py_isdigit c \<or> c = CHR ''.'') s)") auto
  show ?case using Cons f g by (auto simp: dot_not_digit)
qed

lemma filter_dropWhile_out:
  "(\<And>c. Q c \<Longrightarrow> \<not> P c) \<Longrightarrow> filter P (dropWhile Q s) = filter P s"
  by (induction s) auto

lemma filter_strip:
  "filter (\<lambda>c. py_isdigit c \<or> c = CHR ''.'') (py_strip s) = filter (\<lambda>c. py_isdigit c \<or> c = CHR ''.'') s"
proof -
  let ?P = "\<lambda>c. py_isdigit c \<or> c = CHR ''.''"
  have out: "\<And>c. py_isspace c \<Longrightarrow> \<not> ?P c"
    using space_not_digit space_not_dot by blast
  have "filter ?P (py_strip s) = rev (filter ?P (dropWhile py_isspace (rev (dropWhile py_isspace s))))"
    by (simp add: py_strip_def rev_filter)
  also have "\<dots> = rev (filter ?P (rev (dropWhile py_isspace s)))"
    using filter_dropWhile_out [of py_isspace ?P, OF out] by simp
  also have "\<dots> = filter ?P (dropWhile py_isspace s)"
    by (simp add: rev_filter)
  also have "\<dots> = filter ?P s"
    using filter_dropWhile_out [of py_isspace ?P, OF out] by simp
  finally show ?thesis .
qed

lemma fields_strip:
  "map spec_field (split_on (CHR ''.'') (py_strip s)) = map spec_field (split_on (CHR ''.'') s)"
proof -
  have "map spec_field (split_on (CHR ''.'') t) = map spec_field (map (filter py_isdigit) (split_on (CHR ''.'') t))" for t
    by (simp add: spec_field_filter comp_def del: filter_filter)
  moreover have "map (filter py_isdigit) (split_on (CHR ''.'') (py_strip s)) = map (filter py_isdigit) (split_on (CHR ''.'') s)"
    using digits_of_fields [of "py_strip s"] digits_of_fields [of s] by (simp only: filter_strip)
  ultimately show ?thesis by (simp only:)
qed

lemma parse_version_nums:
  "parse_version v =
    (let nums = map field_number (take 3 (split_on (CHR ''.'')
                  (py_strip (case v of None \<Rightarrow> ''0'' | Some x \<Rightarrow> if x = [] then ''0'' else x))))
     in nums @ replicate (3 - length nums) 0)"
  by (simp add: parse_version_def pad_nums_eq parse_fields_eq Let_def)

lemma parse_version_spec: "parse_version (Some v) = spec_parse v"
proof (cases "v = []")
  case True
  have "parse_version (Some []) = spec_parse []" by code_simp
  with True show ?thesis by simp
next
  case False
  have "map field_number (take 3 (split_on (CHR ''.'') (py_strip v))) = map spec_field (take 3 (split_on (CHR ''.'') v))"
    using fields_strip [of v] by (simp add: field_number_spec [abs_def] take_map [symmetric])
  then show ?thesis using False
    by (simp add: parse_version_nums spec_parse_def Let_def)
qed

lemma foldl_digits_nonneg:
  "list_all py_isdecimal s \<Longrightarrow> 0 \<le> acc \<Longrightarrow> 0 \<le> foldl (\<lambda>acc c. 10 * acc + digit_value c) acc s"
proof (induction s arbitrary: acc)
  case Nil
  then show ?case by simp
next
  case (Cons c s)
  from Cons.prems have "0 \<le> digit_value c"
    by (simp add: py_isdecimal_def digit_value_def Let_def)
  with Cons.prems have "0 \<le> 10 * acc + digit_value c" by simp
  with Cons show ?case by simp
qed

lemma spec_field_nonneg: "0 \<le> spec_field f"
  by (simp add: spec_field_def py_int_def foldl_digits_nonneg)

lemma spec_field_Nil: "spec_field [] = 0"
  by (simp add: spec_field_def py_int_def)

lemma spec_parse_length: "length (spec_parse v) = 3"
  by (simp add: spec_parse_def Let_def)

lemma spec_parse_nonneg: "x \<in> set (spec_parse v) \<Longrightarrow> 0 \<le> x"
  by (auto simp: spec_parse_def Let_def spec_field_nonneg)

lemma parse_version_None: "parse_version None = [0, 0, 0]"
  by code_simp

lemma parse_version_Some_or_None: "parse_version v = spec_parse (case v of None \<Rightarrow> [] | Some s \<Rightarrow> s)"
proof (cases v)
  case None
  have "spec_parse [] = [0, 0, 0]" by code_simp
  with None show ?thesis by (simp add: parse_version_None)
next
  case (Some s)
  then show ?thesis by (simp add: parse_version_spec)
qed

lemma triple_of_length3: "length xs = 3 \<Longrightarrow> \<exists>a b c. xs = [a, b, c]"
  by (cases xs; cases "tl xs"; cases "tl (tl xs)") auto

lemma parse_version_shape:
  "\<exists>a b c. parse_version v = [a, b, c] \<and> 0 \<le> a \<and> 0 \<le> b \<and> 0 \<le> c"
proof -
  let ?s = "case v of None \<Rightarrow> [] | Some s \<Rightarrow> s"
  obtain a b c where abc: "spec_parse ?s = [a, b, c]"
    using triple_of_length3 [OF spec_parse_length] by blast
  have "0 \<le> a" "0 \<le> b" "0 \<le> c"
    using spec_parse_nonneg [of _ ?s] abc by simp_all
  with abc show ?thesis by (simp add: parse_version_Some_or_None)
qed

lemma split_on_snoc_sep: "split_on sep (x @ [sep]) = split_on sep x @ [[]]"
proof (induction x)
  case Nil
  show ?case by simp
next
  case (Cons c x)
  obtain f fs where f: "split_on sep x = f # fs"
    using split_on_ne by (cases "split_on sep x") auto
  with Cons show ?case by simp
qed

lemma fields_trailing_dots:
  "map spec_field (split_on (CHR ''.'') (x @ replicate n (CHR ''.''))) =
   map spec_field (split_on (CHR ''.'') x) @ replicate n 0"
proof (induction n)
  case 0
  show ?case by simp
next
  case (Suc n)
  have "x @ replicate (Suc n) (CHR ''.'') = (x @ replicate n (CHR ''.'')) @ [CHR ''.'']"
    by (simp add: replicate_append_same)
  then have "map spec_field (split_on (CHR ''.'') (x @ replicate (Suc n) (CHR ''.''))) =
      map spec_field (split_on (CHR ''.'') (x @ replicate n (CHR ''.''))) @ [0]"
    by (simp only: split_on_snoc_sep) (simp add: spec_field_Nil)
  with Suc show ?case by (simp add: replicate_append_same)
qed

lemma no_digit_filter:
  "\<forall>c\<in>set t. \<not> py_isdigit c \<Longrightarrow>
   filter (\<lambda>c. py_isdigit c \<or> c = CHR ''.'') t = replicate (length (filter (\<lambda>c. c = CHR ''.'') t)) (CHR ''.'')"
  by (induction t) auto

lemma fields_by_digits:
  "map spec_field (split_on (CHR ''.'') s) =
   map spec_field (split_on (CHR ''.'') (filter (\<lambda>c. py_isdigit c \<or> c = CHR ''.'') s))"
proof -
  have "map spec_field (split_on (CHR ''.'') t) = map spec_field (map (filter py_isdigit) (split_on (CHR ''.'') t))" for t
    by (simp add: spec_field_filter comp_def del: filter_filter)
  then show ?thesis using digits_of_fields [of s] by (simp only:)
qed

lemma pad_take_zeros:
  "take 3 (ys @ replicate n (0::int)) @ replicate (3 - length (take 3 (ys @ replicate n 0))) 0 =
   take 3 ys @ replicate (3 - length (take 3 ys)) 0"
  by (simp add: min_def flip: replicate_add)

lemma spec_parse_suffix:
  assumes "\<forall>c\<in>set t. \<not> py_isdigit c"
  shows "spec_parse (v @ t) = spec_parse v"
proof -
  let ?P = "\<lambda>c. py_isdigit c \<or> c = CHR ''.''"
  let ?n = "length (filter (\<lambda>c. c = CHR ''.'') t)"
  have "map spec_field (split_on (CHR ''.'') (v @ t)) =
        map spec_field (split_on (CHR ''.'') (filter ?P v @ replicate ?n (CHR ''.'')))"
    using fields_by_digits [of "v @ t"] no_digit_filter [OF assms] by simp
  also have "\<dots> = map spec_field (split_on (CHR ''.'') (filter ?P v)) @ replicate ?n 0"
    by (rule fields_trailing_dots)
  also have "\<dots> = map spec_field (split_on (CHR ''.'') v) @ replicate ?n 0"
    using fields_by_digits [of v] by simp
  finally have eq: "map spec_field (split_on (CHR ''.'') (v @ t)) =
      map spec_field (split_on (CHR ''.'') v) @ replicate ?n 0" .
  have sp: "spec_parse x =
      take 3 (map spec_field (split_on (CHR ''.'') x)) @
      replicate (3 - length (take 3 (map spec_field (split_on (CHR ''.'') x)))) 0" for x
    by (simp add: spec_parse_def Let_def take_map)
  show ?thesis
    unfolding sp eq by (rule pad_take_zeros)
qed

text \<open>
  Claim C5. The version parser is total: for every string, and for \<^verbatim>\<open>None\<close>, it
  returns three non-negative integers, and they are the ones the specification's
  algorithm computes (split on the dot, at most three fields, the digits of each field
  read as an integer, 0 for a field without digits or with digits \<^verbatim>\<open>int\<close> refuses,
  0 for the missing trailing fields, nothing for the fields after the third). The empty
  string, \<^verbatim>\<open>"abc"\<close> and \<^verbatim>\<open>None\<close> give \<open>(0, 0, 0)\<close>.
\<close>

theorem parse_version_total:
  "(\<exists>a b c. parse_version v = [a, b, c] \<and> 0 \<le> a \<and> 0 \<le> b \<and> 0 \<le> c)
  \<and> parse_version (Some s) = spec_parse s
  \<and> parse_version (Some []) = [0, 0, 0]
  \<and> parse_version (Some ''abc'') = [0, 0, 0]
  \<and> parse_version None = [0, 0, 0]"
proof -
  have "parse_version (Some []) = [0, 0, 0]" by code_simp
  moreover have "parse_version (Some ''abc'') = [0, 0, 0]" by code_simp
  ultimately show ?thesis
    using parse_version_shape [of v] parse_version_spec [of s] parse_version_None by simp
qed

theorem parse_version_total_witness:
  "(\<exists>a b c. parse_version (Some ''7.x'') = [a, b, c] \<and> 0 \<le> a \<and> 0 \<le> b \<and> 0 \<le> c)
  \<and> parse_version (Some ''3.14.1.9'') = spec_parse ''3.14.1.9''
  \<and> spec_parse ''3.14.1.9'' = [3, 14, 1]
  \<and> spec_parse '' v2.5 '' = [2, 5, 0]
  \<and> spec_parse (''7'' @ [CHR 0xB2] @ ''.3'') = [0, 3, 0]"
proof -
  have "spec_parse ''3.14.1.9'' = [3, 14, 1]" by code_simp
  moreover have "spec_parse '' v2.5 '' = [2, 5, 0]" by code_simp
  moreover have "spec_parse (''7'' @ [CHR 0xB2] @ ''.3'') = [0, 3, 0]" by code_simp
  ultimately show ?thesis
    using parse_version_total [of "Some ''7.x''" "''3.14.1.9''"] by blast
qed

text \<open>
  Claim C6. Versions are ordered by their parsed triplets, compared number by number
  from the left: \<^verbatim>\<open>"2.10.1"\<close> is greater than \<^verbatim>\<open>"2.9.9"\<close>, and \<^verbatim>\<open>"1.2.3-beta"\<close>
  parses to what \<^verbatim>\<open>"1.2.3"\<close> parses to. In general a suffix without any digit
  character does not change what a version parses to.
\<close>

theorem version_order_numeric:
  "tuple_gt (parse_version (Some ''2.10.1'')) (parse_version (Some ''2.9.9''))
  \<and> parse_version (Some ''1.2.3-beta'') = parse_version (Some ''1.2.3'')
  \<and> (tuple_gt [a, b, c] [a', b', c'] \<longleftrightarrow> a > a' \<or> (a = a' \<and> (b > b' \<or> (b = b' \<and> c > c'))))
  \<and> ((\<forall>ch\<in>set t. \<not> py_isdigit ch) \<longrightarrow> parse_version (Some (w @ t)) = parse_version (Some w))"
proof -
  have "tuple_gt (parse_version (Some ''2.10.1'')) (parse_version (Some ''2.9.9''))" by code_simp
  moreover have "parse_version (Some ''1.2.3-beta'') = parse_version (Some ''1.2.3'')" by code_simp
  moreover have "tuple_gt [a, b, c] [a', b', c'] \<longleftrightarrow> a > a' \<or> (a = a' \<and> (b > b' \<or> (b = b' \<and> c > c')))"
    by auto
  moreover have "(\<forall>ch\<in>set t. \<not> py_isdigit ch) \<longrightarrow> parse_version (Some (w @ t)) = parse_version (Some w)"
    by (simp add: parse_version_spec spec_parse_suffix)
  ultimately show ?thesis by blast
qed

theorem version_order_numeric_witness:
  "list_all (\<lambda>ch. \<not> py_isdigit ch) ''-rc.x''
  \<and> parse_version (Some (''4.7'' @ ''-rc.x'')) = parse_version (Some ''4.7'')
  \<and> parse_version (Some ''4.7'') = [4, 7, 0]"
proof -
  have h: "\<forall>ch\<in>set ''-rc.x''. \<not> py_isdigit ch" by (simp add: py_isdigit_def)
  then have l: "list_all (\<lambda>ch. \<not> py_isdigit ch) ''-rc.x''" by (simp only: list_all_iff)
  have "parse_version (Some ''4.7'') = [4, 7, 0]" by code_simp
  with h l version_order_numeric [of _ _ _ _ _ _ "''-rc.x''" "''4.7''"] show ?thesis by blast
qed

subsection \<open>Transport policy\<close>

lemma py_lower_char_colon: "py_lower_char c = CHR '':'' \<Longrightarrow> c = CHR '':''"
proof -
  assume a: "py_lower_char c = CHR '':''"
  let ?n = "of_char c :: nat"
  show ?thesis
  proof (cases "(65 \<le> ?n \<and> ?n \<le> 90) \<or> (192 \<le> ?n \<and> ?n \<le> 222 \<and> ?n \<noteq> 215)")
    case True
    with a have "char_of (?n + 32) = CHR '':''" by (simp add: py_lower_char_def Let_def)
    then have "of_char (char_of (?n + 32) :: char) = (of_char (CHR '':'') :: nat)" by simp
    then have "(?n + 32) mod 256 = 58" by (simp add: of_char_of)
    with True show ?thesis by auto
  next
    case False
    with a show ?thesis by (simp add: py_lower_char_def Let_def)
  qed
qed

lemma py_lower_char_colon_iff: "py_lower_char c = CHR '':'' \<longleftrightarrow> c = CHR '':''"
proof
  assume "py_lower_char c = CHR '':''"
  then show "c = CHR '':''" by (rule py_lower_char_colon)
next
  assume "c = CHR '':''"
  then show "py_lower_char c = CHR '':''" by (simp add: py_lower_char_def)
qed

lemma https_prefix_scheme:
  assumes "startswith (py_lower u) ''https://''"
  shows "spec_url_scheme u = Some ''https''"
proof -
  let ?H = "''https://''"
  let ?m = "map py_lower_char u"
  have lenH: "length ?H = 8" by simp
  have t8: "take 8 ?m = ?H"
    using assms unfolding startswith_def py_lower_def lenH .
  have "length (take 8 ?m) = 8" unfolding t8 by simp
  then have len: "8 \<le> length u" by simp
  have nth: "py_lower_char (u ! i) = ?H ! i" if "i < 8" for i
  proof -
    have "?H ! i = take 8 ?m ! i" unfolding t8 ..
    also have "\<dots> = ?m ! i" using that by (rule nth_take)
    also have "\<dots> = py_lower_char (u ! i)" using that len by (intro nth_map) linarith
    finally show ?thesis ..
  qed
  have "py_lower_char (u ! 5) = CHR '':''" using nth [of 5] by simp
  then have colon: "u ! 5 = CHR '':''" by (rule py_lower_char_colon)
  have before: "u ! i \<noteq> CHR '':''" if "i < 5" for i
  proof
    assume "u ! i = CHR '':''"
    then have "py_lower_char (u ! i) = CHR '':''" by (simp add: py_lower_char_colon_iff)
    moreover have "i < 8" using that by simp
    ultimately have "?H ! i = CHR '':''" using nth [of i] by simp
    moreover from that have "i = 0 \<or> i = 1 \<or> i = 2 \<or> i = 3 \<or> i = 4" by linarith
    ultimately show False by auto
  qed
  have tw: "takeWhile (\<lambda>c. c \<noteq> CHR '':'') u = take 5 u"
    by (rule takeWhile_eq_take_P_nth) (simp_all add: before colon)
  have "map py_lower_char (take 5 u) = take 5 (take 8 ?m)"
    by (simp add: take_map)
  also have "\<dots> = ''https''" unfolding t8 by (simp add: eval_nat_numeral)
  finally have low: "py_lower (take 5 u) = ''https''" by (simp add: py_lower_def)
  have "u ! 5 \<in> set u" using len by (intro nth_mem) linarith
  then have mem: "CHR '':'' \<in> set u" by (simp only: colon)
  show ?thesis
    unfolding spec_url_scheme_def tw low using mem by simp
qed

lemma https_only_refuses:
  "spec_url_scheme u \<noteq> Some ''https'' \<Longrightarrow>
   https_only u = Inl (ValueError (''Refusing non-HTTPS URL: '' @ u))"
  using https_prefix_scheme [of u] by (auto simp: https_only_def)

lemma fetch_bytes_refuses:
  "spec_url_scheme u \<noteq> Some ''https'' \<Longrightarrow>
   fetch_bytes w u tmo = (Inl (ValueError (''Refusing non-HTTPS URL: '' @ u)), w)"
  by (simp add: fetch_bytes_def https_only_refuses)

lemma fetch_index_refuses:
  "spec_url_scheme u \<noteq> Some ''https'' \<Longrightarrow>
   fetch_index L w u = (Inl (ValueError (''Refusing non-HTTPS URL: '' @ u)), w)"
  by (simp add: fetch_index_def fetch_json_def fetch_bytes_refuses)

lemma install_pack_refuses_manifest:
  "spec_url_scheme (manifest_url pk) \<noteq> Some ''https'' \<Longrightarrow>
   install_pack L self w pk = (Inl (ValueError (''Refusing non-HTTPS URL: '' @ manifest_url pk)), w)"
  by (simp add: install_pack_def fetch_bytes_refuses)

lemma install_pack_refuses_rules:
  "spec_url_scheme (rules_url pk) \<noteq> Some ''https'' \<Longrightarrow>
   fetch_bytes w (manifest_url pk) 15 = (Inr mb, w1) \<Longrightarrow>
   install_pack L self w pk = (Inl (ValueError (''Refusing non-HTTPS URL: '' @ rules_url pk)), w1)"
  by (simp add: install_pack_def fetch_bytes_refuses)

text \<open>
  Claim C2. A URL whose scheme is not HTTPS is refused before any request is sent:
  \<^verbatim>\<open>_fetch_bytes\<close>, through which every fetch goes, raises the \<^verbatim>\<open>ValueError\<close> that
  names the URL (the specification's \<open>InsecureTransport\<close>) and leaves the world, with its
  list of requests, as it was. So does \<^verbatim>\<open>fetch_index\<close> on such a catalog URL and
  \<^verbatim>\<open>install_pack\<close> on such a manifest URL; on such a rules URL \<^verbatim>\<open>install_pack\<close> raises
  in the world the manifest fetch left, with no further request.
\<close>

theorem non_https_refused_before_io:
  "spec_url_scheme u \<noteq> Some ''https'' \<Longrightarrow>
    fetch_bytes w u tmo = (Inl (ValueError (''Refusing non-HTTPS URL: '' @ u)), w)
    \<and> fetch_index L w u = (Inl (ValueError (''Refusing non-HTTPS URL: '' @ u)), w)
    \<and> (manifest_url pk = u \<longrightarrow>
         install_pack L self w pk = (Inl (ValueError (''Refusing non-HTTPS URL: '' @ u)), w))
    \<and> (rules_url pk = u \<longrightarrow> fetch_bytes w (manifest_url pk) 15 = (Inr mb, w1) \<longrightarrow>
         install_pack L self w pk = (Inl (ValueError (''Refusing non-HTTPS URL: '' @ u)), w1))"
  using fetch_bytes_refuses [of u w tmo] fetch_index_refuses [of u L w]
    install_pack_refuses_manifest [of pk L self w] install_pack_refuses_rules [of pk w mb w1 L self]
  by blast

theorem non_https_refused_before_io_witness:
  "spec_url_scheme ''http://example/index.json'' = Some ''http''
   \<and> fetch_index demo_lib demo_world ''http://example/index.json'' =
       (Inl (ValueError ''Refusing non-HTTPS URL: http://example/index.json''), demo_world)
   \<and> requests demo_world = []"
proof -
  have s: "spec_url_scheme ''http://example/index.json'' = Some ''http''"
    by (simp add: spec_url_scheme_def py_lower_def py_lower_char_def)
  then have "spec_url_scheme ''http://example/index.json'' \<noteq> Some ''https''" by simp
  from non_https_refused_before_io [OF this, of demo_world 15 demo_lib demo_pack demo_manager]
  show ?thesis using s by (simp add: demo_world_def)
qed

subsection \<open>Installer\<close>

lemma fetch_bytes_files: "fetch_bytes w u tmo = (r, w') \<Longrightarrow> files w' = files w"
  by (auto simp: fetch_bytes_def Let_def split: sum.splits)

text \<open>
  Claim C1. When both artifacts have been fetched and the digest of one of them is not
  the digest the descriptor declares, \<^verbatim>\<open>install_pack\<close> raises the \<^verbatim>\<open>ValueError\<close> whose
  message names the artifact (the manifest first) and the pack id (the specification's
  \<open>IntegrityViolation\<close>), and the files are those from before the call: no directory is
  made, no file written.
\<close>

theorem install_pack_digest_mismatch:
  "fetch_bytes w (manifest_url pk) 15 = (Inr mb, w1) \<Longrightarrow>
   fetch_bytes w1 (rules_url pk) 15 = (Inr rb, w2) \<Longrightarrow>
   sha256_bytes L mb \<noteq> sha256_manifest pk \<or> sha256_bytes L rb \<noteq> sha256_rules pk \<Longrightarrow>
   install_pack L self w pk =
     (Inl (ValueError ((if sha256_bytes L mb \<noteq> sha256_manifest pk then ''manifest'' else ''rules'')
                        @ '' SHA mismatch for '' @ id' pk)), w2)
   \<and> files w2 = files w"
proof -
  assume a: "fetch_bytes w (manifest_url pk) 15 = (Inr mb, w1)"
    and b: "fetch_bytes w1 (rules_url pk) 15 = (Inr rb, w2)"
    and c: "sha256_bytes L mb \<noteq> sha256_manifest pk \<or> sha256_bytes L rb \<noteq> sha256_rules pk"
  have "files w2 = files w"
    using fetch_bytes_files [OF a] fetch_bytes_files [OF b] by simp
  moreover have "install_pack L self w pk =
     (Inl (ValueError ((if sha256_bytes L mb \<noteq> sha256_manifest pk then ''manifest'' else ''rules'')
                        @ '' SHA mismatch for '' @ id' pk)), w2)"
    using a b c by (auto simp: install_pack_def)
  ultimately show ?thesis by simp
qed

lemma https_only_demo_m: "https_only ''https://example/m'' = Inr ()"
  by (simp add: https_only_def startswith_def py_lower_def py_lower_char_def)

lemma https_only_demo_r: "https_only ''https://example/r'' = Inr ()"
  by (simp add: https_only_def startswith_def py_lower_def py_lower_char_def)

lemma demo_digest_m: "sha256_bytes demo_lib (ascii_bytes ''{}'') = ''02ab''"
  by (simp add: sha256_bytes_def hexdigest_def demo_lib_def ascii_bytes_def hex_byte_def hex_char_def)

lemma demo_digest_r: "sha256_bytes demo_lib (ascii_bytes ''[]'') = ''02ab''"
  by (simp add: sha256_bytes_def hexdigest_def demo_lib_def ascii_bytes_def hex_byte_def hex_char_def)

theorem install_pack_digest_mismatch_witness:
  "sha256_bytes demo_lib (ascii_bytes ''[]'') \<noteq> sha256_rules demo_pack
   \<and> fst (install_pack demo_lib demo_manager demo_world demo_pack) =
       Inl (ValueError ''rules SHA mismatch for core'')
   \<and> files (snd (install_pack demo_lib demo_manager demo_world demo_pack)) = demo_fs
   \<and> requests (snd (install_pack demo_lib demo_manager demo_world demo_pack)) =
       [get_request ''https://example/m'' 15, get_request ''https://example/r'' 15]"
proof -
  let ?w1 = "demo_world\<lparr>requests := [get_request ''https://example/m'' 15]\<rparr>"
  let ?w2 = "demo_world\<lparr>requests :=
    [get_request ''https://example/m'' 15, get_request ''https://example/r'' 15]\<rparr>"
  have a: "fetch_bytes demo_world (manifest_url demo_pack) 15 = (Inr (ascii_bytes ''{}''), ?w1)"
    by (simp add: fetch_bytes_def https_only_demo_m demo_pack_def demo_world_def get_request_def)
  have b: "fetch_bytes ?w1 (rules_url demo_pack) 15 = (Inr (ascii_bytes ''[]''), ?w2)"
    by (simp add: fetch_bytes_def https_only_demo_r demo_pack_def demo_world_def get_request_def)
  have c: "sha256_bytes demo_lib (ascii_bytes ''[]'') \<noteq> sha256_rules demo_pack"
    by (simp add: demo_digest_r demo_pack_def)
  then have c': "sha256_bytes demo_lib (ascii_bytes ''{}'') \<noteq> sha256_manifest demo_pack
      \<or> sha256_bytes demo_lib (ascii_bytes ''[]'') \<noteq> sha256_rules demo_pack" by simp
  have m: "sha256_bytes demo_lib (ascii_bytes ''{}'') = sha256_manifest demo_pack"
    by (simp add: demo_digest_m demo_pack_def)
  have "install_pack demo_lib demo_manager demo_world demo_pack =
      (Inl (ValueError (''rules'' @ '' SHA mismatch for '' @ id' demo_pack)), ?w2)
      \<and> files ?w2 = files demo_world"
    using install_pack_digest_mismatch [OF a b c', of demo_manager] m by simp
  then show ?thesis using c by (simp add: demo_pack_def demo_world_def)
qed

subsection \<open>Update planner\<close>

lemma check_updates_loop_acc:
  "check_updates_loop installed updates remote = updates @ spec_plan_updates remote installed"
proof (induction remote arbitrary: updates)
  case Nil
  show ?case by (simp add: spec_plan_updates_def)
next
  case (Cons p ps)
  show ?case
  proof (cases "installed (id' p)")
    case None
    then show ?thesis
      using Cons [of "updates @ [\<lparr>pack = p, installed_version = None\<rparr>]"]
      by (simp add: spec_plan_updates_def spec_needs_update_def)
  next
    case (Some local_v)
    then show ?thesis
      using Cons [of "updates @ [\<lparr>pack = p, installed_version = Some local_v\<rparr>]"] Cons [of updates]
      by (simp add: spec_plan_updates_def spec_needs_update_def)
  qed
qed

text \<open>
  Claim C3. The loop of \<^verbatim>\<open>check_updates\<close> over the remote catalog and the installed
  map returns, in the catalog's order, one update without installed version for each
  descriptor whose id is not installed and one update with the installed version for
  each descriptor whose parsed version is strictly greater than the parsed installed
  one, and nothing for the others: it is the planner of the specification.
\<close>

theorem check_updates_plan:
  "check_updates_loop installed [] remote = spec_plan_updates remote installed"
  by (simp add: check_updates_loop_acc)

lemma parsed_1_0_0: "parse_version (Some ''1.0.0'') = [1, 0, 0]"
  by code_simp

lemma parsed_2_0_0: "parse_version (Some ''2.0.0'') = [2, 0, 0]"
  by code_simp

lemma parsed_1_2_0: "parse_version (Some ''1.2.0'') = [1, 2, 0]"
  by code_simp

theorem check_updates_plan_witness:
  "check_updates_loop [''core'' \<mapsto> ''2.0.0''] [] [demo_pack, demo_pack_B] =
     [\<lparr>pack = demo_pack_B, installed_version = None\<rparr>]
   \<and> check_updates_loop [''core'' \<mapsto> ''1.2.0''] [] [demo_pack, demo_pack_B] =
     [\<lparr>pack = demo_pack, installed_version = Some ''1.2.0''\<rparr>,
      \<lparr>pack = demo_pack_B, installed_version = None\<rparr>]"
proof -
  have "spec_plan_updates [demo_pack, demo_pack_B] [''core'' \<mapsto> ''2.0.0''] =
      [\<lparr>pack = demo_pack_B, installed_version = None\<rparr>]"
    by (simp add: spec_plan_updates_def spec_needs_update_def demo_pack_def demo_pack_B_def
        parsed_2_0_0)
  moreover have "spec_plan_updates [demo_pack, demo_pack_B] [''core'' \<mapsto> ''1.2.0''] =
      [\<lparr>pack = demo_pack, installed_version = Some ''1.2.0''\<rparr>,
       \<lparr>pack = demo_pack_B, installed_version = None\<rparr>]"
    by (simp add: spec_plan_updates_def spec_needs_update_def demo_pack_def demo_pack_B_def
        parsed_2_0_0 parsed_1_2_0)
  ultimately show ?thesis
    using check_updates_plan [of "[''core'' \<mapsto> ''2.0.0'']" "[demo_pack, demo_pack_B]"]
      check_updates_plan [of "[''core'' \<mapsto> ''1.2.0'']" "[demo_pack, demo_pack_B]"]
    by simp
qed

subsection \<open>Reading the rules of a pack\<close>

text \<open>
  Claim C10, amended. \<^verbatim>\<open>read_pack_rules\<close> puts the empty sequence in the place of the
  rules only when \<^verbatim>\<open>exists()\<close> answers that the rules document is absent. When the
  document is present the result is what reading and parsing it gives: the exception
  when the JSON is malformed (nothing is caught, unlike in \<^verbatim>\<open>list_installed\<close>), and the
  empty sequence only if the document itself parses to the empty array. What
  \<^verbatim>\<open>exists()\<close> raises is passed on as well.
\<close>

theorem read_pack_rules_propagates:
  "(exists_resolved fs (joinpath (joinpath (guidelines_dir self) pack_id) ''rules.json'') = Inr False \<longrightarrow>
      read_pack_rules L self fs pack_id = Inr (JArr []))
   \<and> (exists_resolved fs (joinpath (joinpath (guidelines_dir self) pack_id) ''rules.json'') = Inr True \<longrightarrow>
      read_pack_rules L self fs pack_id =
        bind_err (read_text_resolved L fs (joinpath (joinpath (guidelines_dir self) pack_id) ''rules.json''))
          (json_loads L))
   \<and> (exists_resolved fs (joinpath (joinpath (guidelines_dir self) pack_id) ''rules.json'') = Inr True \<longrightarrow>
      read_text_resolved L fs (joinpath (joinpath (guidelines_dir self) pack_id) ''rules.json'') = Inr text \<longrightarrow>
      json_loads L text = Inl e \<longrightarrow>
      read_pack_rules L self fs pack_id = Inl e)
   \<and> (exists_resolved fs (joinpath (joinpath (guidelines_dir self) pack_id) ''rules.json'') = Inl e' \<longrightarrow>
      read_pack_rules L self fs pack_id = Inl e')
   \<and> (read_pack_rules L self fs pack_id = Inr (JArr []) \<longrightarrow>
      exists_resolved fs (joinpath (joinpath (guidelines_dir self) pack_id) ''rules.json'') = Inr False
      \<or> (\<exists>t. read_text_resolved L fs (joinpath (joinpath (guidelines_dir self) pack_id) ''rules.json'') = Inr t
             \<and> json_loads L t = Inr (JArr [])))"
  by (auto simp: read_pack_rules_def Let_def bind_err_def split: sum.splits if_splits)

theorem read_pack_rules_propagates_witness:
  "exists_resolved demo_fs (joinpath (joinpath (guidelines_dir demo_manager) ''broken'') ''rules.json'')
     = Inr True
   \<and> read_text_resolved demo_lib demo_fs
        (joinpath (joinpath (guidelines_dir demo_manager) ''broken'') ''rules.json'') = Inr ''{''
   \<and> json_loads demo_lib ''{'' = Inl JSONDecodeError
   \<and> read_pack_rules demo_lib demo_manager demo_fs ''broken'' = Inl JSONDecodeError
   \<and> exists_resolved demo_fs (joinpath (joinpath (guidelines_dir demo_manager) ''absent'') ''rules.json'')
     = Inr False
   \<and> read_pack_rules demo_lib demo_manager demo_fs ''absent'' = Inr (JArr [])
   \<and> exists_resolved locked_fs (joinpath (joinpath (guidelines_dir demo_manager) ''locked'') ''rules.json'')
     = Inl PermissionError
   \<and> read_pack_rules demo_lib demo_manager locked_fs ''locked'' = Inl PermissionError
   \<and> read_pack_rules demo_lib demo_manager demo_fs ''core/../broken'' = Inl JSONDecodeError"
proof -
  have a: "exists_resolved demo_fs
      (joinpath (joinpath (guidelines_dir demo_manager) ''broken'') ''rules.json'') = Inr True"
    by code_simp
  have b: "read_text_resolved demo_lib demo_fs
      (joinpath (joinpath (guidelines_dir demo_manager) ''broken'') ''rules.json'') = Inr ''{''"
    by code_simp
  have c: "json_loads demo_lib ''{'' = Inl JSONDecodeError"
    by code_simp
  have d: "exists_resolved demo_fs
      (joinpath (joinpath (guidelines_dir demo_manager) ''absent'') ''rules.json'') = Inr False"
    by code_simp
  have e: "exists_resolved locked_fs
      (joinpath (joinpath (guidelines_dir demo_manager) ''locked'') ''rules.json'') = Inl PermissionError"
    by code_simp
  have f: "read_pack_rules demo_lib demo_manager demo_fs ''core/../broken'' = Inl JSONDecodeError"
    by code_simp
  show ?thesis
    using a b c d e f
      read_pack_rules_propagates [of demo_fs demo_manager "''broken''" demo_lib "''{''" JSONDecodeError]
      read_pack_rules_propagates [of demo_fs demo_manager "''absent''" demo_lib]
      read_pack_rules_propagates [of locked_fs demo_manager "''locked''" demo_lib _ _ PermissionError]
    by blast
qed

text \<open>
  Claim C10 as it is written fails on the code: the rules document of the pack
  \<^verbatim>\<open>core\<close> is present and holds the empty array, and \<^verbatim>\<open>read_pack_rules\<close> returns the
  empty sequence.
\<close>

theorem read_pack_rules_empty_when_present:
  "exists_resolved demo_fs (joinpath (joinpath (guidelines_dir demo_manager) ''core'') ''rules.json'')
     = Inr True
   \<and> read_bytes demo_fs [''data'', ''guidelines'', ''core'', ''rules.json''] = Inr (ascii_bytes ''[]'')
   \<and> read_pack_rules demo_lib demo_manager demo_fs ''core'' = Inr (JArr [])"
  by code_simp

subsection \<open>Content addressing\<close>

lemma hex_char_lower: "py_lower_char (hex_char n) = hex_char n"
proof -
  have "\<forall>c\<in>set ''0123456789abcdef''. py_lower_char c = c"
    by (simp add: py_lower_char_def)
  moreover have "hex_char n \<in> set ''0123456789abcdef''"
    unfolding hex_char_def by (rule nth_mem) simp
  ultimately show ?thesis by blast
qed

lemma hexdigest_lower: "py_lower (hexdigest L b) = hexdigest L b"
proof -
  have "map py_lower_char (concat (map hex_byte xs)) = concat (map hex_byte xs)" for xs
    by (induction xs) (simp_all add: hex_byte_def hex_char_lower)
  then show ?thesis by (simp add: py_lower_def hexdigest_def)
qed

lemma sha256_file_digest:
  "read_bytes fs p = Inr b \<Longrightarrow> sha256_file L fs p = Inr (sha256_bytes L b)"
  by (simp add: sha256_file_def sha256_bytes_def bind_err_def)

lemma sha256_file_Inr:
  "sha256_file L fs p = Inr h \<Longrightarrow> \<exists>b. read_bytes fs p = Inr b \<and> h = sha256_bytes L b"
  by (auto simp: sha256_file_def sha256_bytes_def bind_err_def split: sum.splits)

lemma index_entry_digests:
  assumes "index_entry L fs pack_dir = Inr (Some e)"
  shows "\<exists>mb rb. read_bytes fs (pack_dir @ [''manifest.json'']) = Inr mb
      \<and> read_bytes fs (pack_dir @ [''rules.json'']) = Inr rb
      \<and> py_getitem e ''sha256_manifest'' = Inr (JStr (sha256_bytes L mb))
      \<and> py_getitem e ''sha256_rules'' = Inr (JStr (sha256_bytes L rb))
      \<and> (\<exists>d. pack_info L e = Inr d
            \<and> sha256_manifest d = sha256_bytes L mb \<and> sha256_rules d = sha256_bytes L rb)"
proof -
  from assms obtain pid ttl ver sha_m sha_r where
    m: "sha256_file L fs (pack_dir @ [''manifest.json'']) = Inr sha_m" and
    r: "sha256_file L fs (pack_dir @ [''rules.json'']) = Inr sha_r" and
    e: "e = JObj
          [(''id'', pid), (''title'', ttl), (''version'', ver),
           (''manifest_url'', JStr (BASE @ ''/packs/'' @ path_name pack_dir @ ''/manifest.json'')),
           (''rules_url'', JStr (BASE @ ''/packs/'' @ path_name pack_dir @ ''/rules.json'')),
           (''sha256_manifest'', JStr sha_m), (''sha256_rules'', JStr sha_r)]"
    by (auto simp: index_entry_def Let_def bind_err_def split: if_splits sum.splits)
  from sha256_file_Inr [OF m] obtain mb where
    mb: "read_bytes fs (pack_dir @ [''manifest.json'']) = Inr mb" "sha_m = sha256_bytes L mb" by blast
  from sha256_file_Inr [OF r] obtain rb where
    rb: "read_bytes fs (pack_dir @ [''rules.json'']) = Inr rb" "sha_r = sha256_bytes L rb" by blast
  have g: "py_getitem e ''sha256_manifest'' = Inr (JStr (sha256_bytes L mb))"
      "py_getitem e ''sha256_rules'' = Inr (JStr (sha256_bytes L rb))"
    by (simp_all add: e py_getitem_def mb rb)
  have "\<exists>d. pack_info L e = Inr d
      \<and> sha256_manifest d = sha256_bytes L mb \<and> sha256_rules d = sha256_bytes L rb"
    by (simp add: e pack_info_def py_getitem_def py_get_def py_get_method_def bind_err_def
        py_str_def mb rb sha256_bytes_def hexdigest_lower)
  with mb rb g show ?thesis by blast
qed

text \<open>
  Claim C9. The builder's \<^verbatim>\<open>sha256_file\<close> of a file holding the bytes \<open>b\<close> is the
  manager's \<^verbatim>\<open>_sha256_bytes\<close> of \<open>b\<close>. So the entry the builder writes for a pack
  directory carries, as its two digest fields, the manager's digests of the bytes of the
  two files, and the descriptor \<^verbatim>\<open>fetch_index\<close> makes of that entry carries the same
  two strings, which are what \<^verbatim>\<open>install_pack\<close> compares the digests of fetched bytes
  with.
\<close>

theorem build_digest_agrees:
  "(read_bytes fs p = Inr b \<longrightarrow> sha256_file L fs p = Inr (sha256_bytes L b))
   \<and> (index_entry L fs pack_dir = Inr (Some e) \<longrightarrow>
        (\<exists>mb rb. read_bytes fs (pack_dir @ [''manifest.json'']) = Inr mb
          \<and> read_bytes fs (pack_dir @ [''rules.json'']) = Inr rb
          \<and> py_getitem e ''sha256_manifest'' = Inr (JStr (sha256_bytes L mb))
          \<and> py_getitem e ''sha256_rules'' = Inr (JStr (sha256_bytes L rb))
          \<and> (\<exists>d. pack_info L e = Inr d
                \<and> sha256_manifest d = sha256_bytes L mb \<and> sha256_rules d = sha256_bytes L rb)))"
  using sha256_file_digest [of fs p b L] index_entry_digests [of L fs pack_dir e] by blast

theorem build_digest_agrees_witness:
  \<open>read_bytes demo_fs [''app'', ''guidelines_builtin'', ''packs'', ''core'', ''manifest.json'']
     = Inr (ascii_bytes ''{"version": "2.0.0"}'')
   \<and> sha256_file demo_lib demo_fs
        [''app'', ''guidelines_builtin'', ''packs'', ''core'', ''manifest.json'']
     = Inr (sha256_bytes demo_lib (ascii_bytes ''{"version": "2.0.0"}''))
   \<and> sha256_bytes demo_lib (ascii_bytes ''{"version": "2.0.0"}'') = ''14ab''
   \<and> (\<exists>e mb rb d. index_entry demo_lib demo_fs [''app'', ''guidelines_builtin'', ''packs'', ''core'']
          = Inr (Some e)
        \<and> read_bytes demo_fs [''app'', ''guidelines_builtin'', ''packs'', ''core'', ''manifest.json'']
          = Inr mb
        \<and> read_bytes demo_fs [''app'', ''guidelines_builtin'', ''packs'', ''core'', ''rules.json'']
          = Inr rb
        \<and> pack_info demo_lib e = Inr d
        \<and> sha256_manifest d = sha256_bytes demo_lib mb \<and> sha256_rules d = sha256_bytes demo_lib rb)\<close>
proof -
  let ?d = "[''app'', ''guidelines_builtin'', ''packs'', ''core'']"
  let ?e = "JObj
     [(''id'', JStr ''core''), (''title'', JStr ''core''), (''version'', JStr ''2.0.0''),
      (''manifest_url'', JStr (BASE @ ''/packs/core/manifest.json'')),
      (''rules_url'', JStr (BASE @ ''/packs/core/rules.json'')),
      (''sha256_manifest'', JStr ''14ab''), (''sha256_rules'', JStr ''02ab'')]"
  have a: \<open>read_bytes demo_fs (?d @ [''manifest.json'']) = Inr (ascii_bytes ''{"version": "2.0.0"}'')\<close>
    by code_simp
  have b: \<open>sha256_bytes demo_lib (ascii_bytes ''{"version": "2.0.0"}'') = ''14ab''\<close>
    by code_simp
  have c: "index_entry demo_lib demo_fs ?d = Inr (Some ?e)"
    by code_simp
  show ?thesis
    using a b c
      build_digest_agrees [of demo_fs "?d @ [''manifest.json'']" _ demo_lib ?d ?e]
    by (simp del: One_nat_def) blast
qed

subsection \<open>Local store\<close>

lemma iterdir_children:
  "iterdir fs p = Inr ds \<Longrightarrow> set ds = {q. q \<noteq> [] \<and> butlast q = p \<and> q \<in> fst ` set fs}"
  by (force simp: iterdir_def split: option.splits node.splits)

lemma child_path: "q \<noteq> [] \<Longrightarrow> butlast q = p \<Longrightarrow> q = p @ [path_name q]"
  by (simp add: path_name_def) (metis append_butlast_last_id)

lemma path_name_child: "path_name (p @ [n]) = n"
  by (simp add: path_name_def)

lemma py_str_JStr: "py_str L (JStr s) = s"
  by (simp add: py_str_def)

lemma read_bytes_exists: "read_bytes fs p = Inr b \<Longrightarrow> path_exists fs p"
  by (auto simp: read_bytes_def path_exists_def split: option.splits node.splits)

lemma manifest_version_Inr:
  "manifest_version L fs m = Inr v \<longleftrightarrow>
     (\<exists>b t kvs. read_bytes fs m = Inr b \<and> utf8_decode L b = Inr t
        \<and> json_loads L t = Inr (JObj kvs)
        \<and> v = (case map_of kvs ''version'' of None \<Rightarrow> ''0.0.0'' | Some x \<Rightarrow> py_str L x))"
  by (auto simp: manifest_version_def read_text_def bind_err_def py_get_def py_get_method_def
      py_str_JStr split: sum.splits json.splits option.splits)

lemma installed_body_spec:
  "(is_dir fs (guidelines_dir self @ [name])
    \<and> path_exists fs (guidelines_dir self @ [name] @ [''manifest.json''])
    \<and> manifest_version L fs (guidelines_dir self @ [name] @ [''manifest.json'']) = Inr v)
   \<longleftrightarrow> spec_installed L self fs name = Some v"
proof -
  have "spec_installed L self fs name = Some v \<longleftrightarrow>
      is_dir fs (guidelines_dir self @ [name])
      \<and> manifest_version L fs (guidelines_dir self @ [name] @ [''manifest.json'']) = Inr v"
    unfolding manifest_version_Inr
    by (auto simp: spec_installed_def Let_def split: sum.splits json.splits)
  moreover have "manifest_version L fs m = Inr v \<Longrightarrow> path_exists fs m" for m
    unfolding manifest_version_Inr using read_bytes_exists by blast
  ultimately show ?thesis by blast
qed


lemma installed_body_at:
  "d = guidelines_dir self @ [name] \<Longrightarrow>
   (is_dir fs d \<and> path_exists fs (d @ [''manifest.json''])
    \<and> manifest_version L fs (d @ [''manifest.json'']) = Inr v)
   \<longleftrightarrow> spec_installed L self fs name = Some v"
  using installed_body_spec [of fs self name L v] by simp

lemma py_is_dir_plain: "fs_lookup fs p \<noteq> Some Denied \<Longrightarrow> py_is_dir fs p = Inr (is_dir fs p)"
  by (auto simp: py_is_dir_def is_dir_def split: option.splits node.splits)

lemma py_exists_plain: "fs_lookup fs p \<noteq> Some Denied \<Longrightarrow> py_exists fs p = Inr (path_exists fs p)"
  by (auto simp: py_exists_def path_exists_def split: option.splits node.splits)

lemma list_installed_loop_spec:
  assumes "\<forall>d\<in>set ds. d = guidelines_dir self @ [path_name d]"
    and "\<forall>d\<in>set ds. fs_lookup fs d \<noteq> Some Denied
           \<and> fs_lookup fs (d @ [''manifest.json'']) \<noteq> Some Denied"
  shows "\<exists>m. list_installed_loop L fs out ds = Inr m \<and>
     (\<forall>name. m name =
       (if guidelines_dir self @ [name] \<in> set ds
        then (case spec_installed L self fs name of Some v \<Rightarrow> Some v | None \<Rightarrow> out name)
        else out name))"
  using assms
proof (induction ds arbitrary: out)
  case Nil
  show ?case by simp
next
  case (Cons d ds)
  let ?g = "guidelines_dir self"
  from Cons.prems have d: "d = ?g @ [path_name d]" and rest: "\<forall>d\<in>set ds. d = ?g @ [path_name d]"
    by simp_all
  from Cons.prems(2) have acc: "fs_lookup fs d \<noteq> Some Denied"
      "fs_lookup fs (d @ [''manifest.json'']) \<noteq> Some Denied"
    and accs: "\<forall>d\<in>set ds. fs_lookup fs d \<noteq> Some Denied
           \<and> fs_lookup fs (d @ [''manifest.json'']) \<noteq> Some Denied"
    by simp_all
  note IH = Cons.IH [OF rest accs]
  note st = py_is_dir_plain [OF acc(1)] py_exists_plain [OF acc(2)]
  have eq: "?g @ [name] = d \<longleftrightarrow> name = path_name d" for name
    using d by (metis append1_eq_conv)
  show ?case
  proof (cases "is_dir fs d \<and> path_exists fs (d @ [''manifest.json''])
      \<and> (\<exists>v. manifest_version L fs (d @ [''manifest.json'']) = Inr v)")
    case True
    then obtain v where v: "manifest_version L fs (d @ [''manifest.json'']) = Inr v" by blast
    have sv: "spec_installed L self fs (path_name d) = Some v"
      using True v installed_body_at [OF d, of fs L v] by blast
    have step: "list_installed_loop L fs out (d # ds) =
        list_installed_loop L fs (out(path_name d \<mapsto> v)) ds"
      using True v by (simp add: st Let_def)
    from IH [of "out(path_name d \<mapsto> v)"] obtain m where
      m: "list_installed_loop L fs (out(path_name d \<mapsto> v)) ds = Inr m"
        "\<forall>name. m name =
          (if ?g @ [name] \<in> set ds
           then (case spec_installed L self fs name of Some v \<Rightarrow> Some v
                 | None \<Rightarrow> (out(path_name d \<mapsto> v)) name)
           else (out(path_name d \<mapsto> v)) name)"
      by blast
    show ?thesis
      unfolding step using m eq sv by (auto split: option.splits)
  next
    case False
    have "spec_installed L self fs (path_name d) \<noteq> Some v" for v
      using False installed_body_at [OF d, of fs L v] by blast
    then have none: "spec_installed L self fs (path_name d) = None"
      by (cases "spec_installed L self fs (path_name d)") auto
    have step: "list_installed_loop L fs out (d # ds) = list_installed_loop L fs out ds"
      using False by (auto simp: st Let_def split: sum.splits)
    from IH [of out] obtain m where
      m: "list_installed_loop L fs out ds = Inr m"
        "\<forall>name. m name =
          (if ?g @ [name] \<in> set ds
           then (case spec_installed L self fs name of Some v \<Rightarrow> Some v | None \<Rightarrow> out name)
           else out name)"
      by blast
    show ?thesis
      unfolding step using m eq none by (auto split: option.splits)
  qed
qed

text \<open>
  When the store root is a directory and the system refuses no access to a path right
  below it or to the manifest path of one, \<^verbatim>\<open>list_installed\<close> returns the map that holds
  exactly the immediate subdirectories whose manifest document can be read, decoded and
  parsed to an object, each with the string of its \<^verbatim>\<open>version\<close> field or \<^verbatim>\<open>"0.0.0"\<close>
  when the field is absent. A subdirectory without manifest, or whose manifest fails on
  the way (an unreadable file among them), is left out and the enumeration goes on.
\<close>

lemma list_installed_accessible:
  assumes dir: "is_dir fs (guidelines_dir self)"
    and acc: "\<forall>name. fs_lookup fs (guidelines_dir self @ [name]) \<noteq> Some Denied
        \<and> fs_lookup fs (guidelines_dir self @ [name, ''manifest.json'']) \<noteq> Some Denied"
  shows "list_installed L self fs = Inr (spec_installed L self fs)"
proof -
  let ?g = "guidelines_dir self"
  from dir obtain ds where ds: "iterdir fs ?g = Inr ds"
    by (auto simp: iterdir_def is_dir_def)
  have ch: "set ds = {q. q \<noteq> [] \<and> butlast q = ?g \<and> q \<in> fst ` set fs}"
    using ds by (rule iterdir_children)
  then have form: "\<forall>d\<in>set ds. d = ?g @ [path_name d]"
    using child_path by blast
  have accs: "\<forall>d\<in>set ds. fs_lookup fs d \<noteq> Some Denied
           \<and> fs_lookup fs (d @ [''manifest.json'']) \<noteq> Some Denied"
  proof
    fix d assume "d \<in> set ds"
    with form have "d = ?g @ [path_name d]" by blast
    then show "fs_lookup fs d \<noteq> Some Denied \<and> fs_lookup fs (d @ [''manifest.json'']) \<noteq> Some Denied"
      using acc [rule_format, of "path_name d"] by (metis append_Cons append_Nil append_assoc)
  qed
  from list_installed_loop_spec [OF form accs, of L Map.empty] obtain m where
    m: "list_installed_loop L fs Map.empty ds = Inr m"
      "\<forall>name. m name =
        (if ?g @ [name] \<in> set ds
         then (case spec_installed L self fs name of Some v \<Rightarrow> Some v | None \<Rightarrow> None)
         else None)"
    by blast
  have "m name = spec_installed L self fs name" for name
  proof (cases "?g @ [name] \<in> set ds")
    case True
    then show ?thesis using m(2) by (simp split: option.splits)
  next
    case False
    then have "?g @ [name] \<notin> fst ` set fs" using ch by simp
    then have "map_of fs (?g @ [name]) = None" by (simp add: map_of_eq_None_iff)
    then have "\<not> is_dir fs (?g @ [name])" by (simp add: is_dir_def fs_lookup_def)
    then have "spec_installed L self fs name = None" by (simp add: spec_installed_def)
    then show ?thesis using False m(2) by simp
  qed
  then have "m = spec_installed L self fs" by (rule ext)
  then show ?thesis using ds m(1) by (simp add: list_installed_def)
qed

lemma list_installed_demo:
  "\<exists>m. list_installed demo_lib demo_manager demo_fs = Inr m
     \<and> m ''core'' = Some ''1.2.0'' \<and> m ''broken'' = None \<and> m ''sealed'' = None
     \<and> m ''absent'' = None"
proof -
  have a: "is_dir demo_fs (guidelines_dir demo_manager)" by code_simp
  have keys: "\<forall>(p, n)\<in>set demo_fs. n \<noteq> Denied" by code_simp
  have "fs_lookup demo_fs p \<noteq> Some Denied" for p
  proof
    assume "fs_lookup demo_fs p = Some Denied"
    then have "map_of demo_fs p = Some Denied"
      by (simp add: fs_lookup_def split: if_splits)
    then have "(p, Denied) \<in> set demo_fs" by (rule map_of_SomeD)
    with keys show False by blast
  qed
  then have acc: "\<forall>name. fs_lookup demo_fs (guidelines_dir demo_manager @ [name]) \<noteq> Some Denied
        \<and> fs_lookup demo_fs (guidelines_dir demo_manager @ [name, ''manifest.json'']) \<noteq> Some Denied"
    by blast
  have b: "spec_installed demo_lib demo_manager demo_fs ''core'' = Some ''1.2.0''" by code_simp
  have c: "spec_installed demo_lib demo_manager demo_fs ''broken'' = None" by code_simp
  have d: "spec_installed demo_lib demo_manager demo_fs ''sealed'' = None" by code_simp
  have e: "spec_installed demo_lib demo_manager demo_fs ''absent'' = None" by code_simp
  show ?thesis
    using b c d e list_installed_accessible [OF a acc, of demo_lib] by simp
qed

text \<open>
  The exception in general: a listed subdirectory whose manifest path the system
  refuses ends the loop with \<^verbatim>\<open>PermissionError\<close>, whatever else the store holds.
\<close>

lemma py_is_dir_raises: "py_is_dir fs p = Inl e \<Longrightarrow> e = PermissionError"
  by (auto simp: py_is_dir_def split: option.splits node.splits)

lemma py_exists_raises: "py_exists fs p = Inl e \<Longrightarrow> e = PermissionError"
  by (auto simp: py_exists_def split: option.splits node.splits)

lemma list_installed_loop_denied:
  "d \<in> set ds \<Longrightarrow> is_dir fs d \<Longrightarrow> fs_lookup fs (d @ [''manifest.json'']) = Some Denied \<Longrightarrow>
   list_installed_loop L fs out ds = Inl PermissionError"
proof (induction ds arbitrary: out)
  case Nil
  then show ?case by simp
next
  case (Cons x ds)
  have dd: "py_is_dir fs d = Inr True" "py_exists fs (d @ [''manifest.json'']) = Inl PermissionError"
    using Cons.prems(2,3) by (simp_all add: py_is_dir_def py_exists_def is_dir_def)
  show ?case
  proof (cases "py_is_dir fs x")
    case (Inl e)
    with py_is_dir_raises [OF Inl] show ?thesis by simp
  next
    case isd: (Inr b)
    show ?thesis
    proof (cases b)
      case False
      with isd dd(1) have "x \<noteq> d" by auto
      with Cons.prems(1) have "d \<in> set ds" by simp
      from Cons.IH [OF this Cons.prems(2,3)] isd False show ?thesis by simp
    next
      case True
      show ?thesis
      proof (cases "py_exists fs (x @ [''manifest.json''])")
        case (Inl e)
        with py_exists_raises [OF Inl] isd True show ?thesis by (simp add: Let_def)
      next
        case (Inr ex)
        with dd(2) have "x \<noteq> d" by auto
        with Cons.prems(1) have "d \<in> set ds" by simp
        from Cons.IH [OF this Cons.prems(2,3)] isd True Inr show ?thesis
          by (simp add: Let_def split: sum.splits)
      qed
    qed
  qed
qed

lemma list_installed_denied:
  assumes "is_dir fs (guidelines_dir self)"
    and "is_dir fs (guidelines_dir self @ [name])"
    and "fs_lookup fs (guidelines_dir self @ [name, ''manifest.json'']) = Some Denied"
  shows "list_installed L self fs = Inl PermissionError"
proof -
  let ?g = "guidelines_dir self"
  from assms(1) obtain ds where ds: "iterdir fs ?g = Inr ds"
    by (auto simp: iterdir_def is_dir_def)
  have ch: "set ds = {q. q \<noteq> [] \<and> butlast q = ?g \<and> q \<in> fst ` set fs}"
    using ds by (rule iterdir_children)
  from assms(2) have "map_of fs (?g @ [name]) = Some Dir"
    by (simp add: is_dir_def fs_lookup_def)
  then have "(?g @ [name], Dir) \<in> set fs" by (rule map_of_SomeD)
  then have "?g @ [name] \<in> fst ` set fs" by force
  with ch have mem: "?g @ [name] \<in> set ds" by simp
  have "fs_lookup fs ((?g @ [name]) @ [''manifest.json'']) = Some Denied"
    using assms(3) by simp
  from list_installed_loop_denied [OF mem assms(2) this]
  show ?thesis using ds by (simp add: list_installed_def)
qed

text \<open>
  Claim C7. \<^verbatim>\<open>list_installed\<close> is to leave out a subdirectory whose manifest cannot be
  had and go on with the others. The code misses a case: \<^verbatim>\<open>d.is_dir()\<close> and
  \<^verbatim>\<open>m.exists()\<close> stand before the \<^verbatim>\<open>try\<close>. In the store below, whose root holds the
  valid pack \<^verbatim>\<open>core\<close> and a subdirectory that may not be searched, \<^verbatim>\<open>m.exists()\<close>
  raises \<^verbatim>\<open>PermissionError\<close>, and \<^verbatim>\<open>list_installed\<close> ends with that exception and
  returns no mapping, not the mapping with \<^verbatim>\<open>core\<close> alone.
\<close>

theorem list_installed_aborts_on_denied:
  "is_dir locked_fs (guidelines_dir demo_manager)
   \<and> spec_installed demo_lib demo_manager locked_fs ''core'' = Some ''1.2.0''
   \<and> is_dir locked_fs (guidelines_dir demo_manager @ [''locked''])
   \<and> py_exists locked_fs (guidelines_dir demo_manager @ [''locked'', ''manifest.json''])
        = Inl PermissionError
   \<and> list_installed demo_lib demo_manager locked_fs = Inl PermissionError"
proof -
  have a: "is_dir locked_fs (guidelines_dir demo_manager)" by code_simp
  have b: "spec_installed demo_lib demo_manager locked_fs ''core'' = Some ''1.2.0''" by code_simp
  have c: "is_dir locked_fs (guidelines_dir demo_manager @ [''locked''])" by code_simp
  have d: "py_exists locked_fs (guidelines_dir demo_manager @ [''locked'', ''manifest.json''])
        = Inl PermissionError" by code_simp
  have "case list_installed demo_lib demo_manager locked_fs of
          Inl e \<Rightarrow> e = PermissionError | Inr m \<Rightarrow> False" by code_simp
  then have e: "list_installed demo_lib demo_manager locked_fs = Inl PermissionError"
    by (cases "list_installed demo_lib demo_manager locked_fs") simp_all
  from a b c d e show ?thesis by simp
qed

subsection \<open>Seeding the builtin packs\<close>

lemma os_mkdir_Inr:
  "os_mkdir fs p = Inr fs' \<Longrightarrow> fs' = (p, Dir) # fs \<and> p \<noteq> []"
  by (auto simp: os_mkdir_def fs_lookup_def split: option.splits node.splits if_splits)

lemma fs_lookup_Cons:
  "fs_lookup ((p, n) # fs) q = (if q = [] then Some Dir else if q = p then Some n else fs_lookup fs q)"
  by (simp add: fs_lookup_def)

lemma fs_lookup_root: "fs_lookup fs [] = Some Dir"
  by (simp add: fs_lookup_def)

lemma mkdir_exist_ok_changes:
  "mkdir_exist_ok fs p = Inr fs' \<Longrightarrow> fs_lookup fs' q \<noteq> fs_lookup fs q \<Longrightarrow> q = p"
  by (auto simp: mkdir_exist_ok_def fs_lookup_Cons fs_lookup_root dest!: os_mkdir_Inr
      split: sum.splits if_splits)

lemma mkdir_parents_changes:
  "mkdir_parents fs p = Inr fs' \<Longrightarrow> fs_lookup fs' q \<noteq> fs_lookup fs q \<Longrightarrow> \<exists>r. p = q @ r"
proof (induction fs p arbitrary: fs' rule: mkdir_parents.induct)
  case (1 fs p)
  show ?case
  proof (cases "p \<noteq> [] \<and> os_mkdir fs p = Inl FileNotFoundError")
    case True
    with "1.prems"(1) obtain fs1 where
      par: "mkdir_parents fs (butlast p) = Inr fs1" and self: "mkdir_exist_ok fs1 p = Inr fs'"
      by (subst (asm) mkdir_parents.simps) (auto split: sum.splits)
    show ?thesis
    proof (cases "fs_lookup fs1 q = fs_lookup fs q")
      case same: True
      with "1.prems"(2) have "fs_lookup fs' q \<noteq> fs_lookup fs1 q" by simp
      from mkdir_exist_ok_changes [OF self this] show ?thesis by simp
    next
      case False
      from "1.IH" [OF True par False] obtain r where "butlast p = q @ r" by blast
      then have "p = q @ (r @ [last p])"
        using True by (metis append_assoc append_butlast_last_id)
      then show ?thesis by blast
    qed
  next
    case False
    with "1.prems"(1) have "mkdir_exist_ok fs p = Inr fs'"
      by (subst (asm) mkdir_parents.simps) auto
    from mkdir_exist_ok_changes [OF this "1.prems"(2)] show ?thesis by simp
  qed
qed

lemma write_bytes_changes:
  "write_bytes fs p b = Inr fs' \<Longrightarrow> fs_lookup fs' q \<noteq> fs_lookup fs q \<Longrightarrow> q = p"
  by (auto simp: write_bytes_def fs_lookup_Cons fs_lookup_root
      split: option.splits node.splits if_splits)

lemma py_exists_False: "py_exists fs p = Inr False \<Longrightarrow> fs_lookup fs p = None"
  by (auto simp: py_exists_def split: option.splits node.splits)

lemma copy_files_changes:
  "copy_files fs pack_dir dest fnames = (res, fs') \<Longrightarrow>
   fs_lookup fs' q \<noteq> fs_lookup fs q \<Longrightarrow> \<exists>f. q = dest @ [f]"
proof (induction fnames arbitrary: fs)
  case Nil
  then show ?case by simp
next
  case (Cons fname rest)
  show ?case
  proof (cases "py_exists fs (pack_dir @ [fname])")
    case (Inl e)
    with Cons.prems show ?thesis by (simp add: Let_def)
  next
    case ex: (Inr found)
    show ?thesis
    proof (cases found)
      case False
      with ex Cons.prems(1) have "copy_files fs pack_dir dest rest = (res, fs')"
        by (simp add: Let_def)
      from Cons.IH [OF this Cons.prems(2)] show ?thesis .
    next
      case True
      show ?thesis
      proof (cases "read_bytes fs (pack_dir @ [fname])")
        case (Inl e)
        with True ex Cons.prems show ?thesis by (simp add: Let_def)
      next
        case (Inr b)
        show ?thesis
        proof (cases "write_bytes fs (dest @ [fname]) b")
          case (Inl e)
          with True ex Inr Cons.prems show ?thesis by (simp add: Let_def)
        next
          case wr: (Inr fs1)
          with True ex Inr Cons.prems(1) have c: "copy_files fs1 pack_dir dest rest = (res, fs')"
            by (simp add: Let_def)
          show ?thesis
          proof (cases "fs_lookup fs1 q = fs_lookup fs q")
            case True
            with Cons.prems(2) have "fs_lookup fs' q \<noteq> fs_lookup fs1 q" by simp
            from Cons.IH [OF c this] show ?thesis .
          next
            case False
            from write_bytes_changes [OF wr False] show ?thesis by blast
          qed
        qed
      qed
    qed
  qed
qed

lemma mkdir_parents_sibling:
  assumes "mkdir_parents fs (g @ [nm]) = Inr fs'" and "nm \<noteq> name"
  shows "fs_lookup fs' (g @ name # rest) = fs_lookup fs (g @ name # rest)"
proof (rule ccontr)
  assume "fs_lookup fs' (g @ name # rest) \<noteq> fs_lookup fs (g @ name # rest)"
  from mkdir_parents_changes [OF assms(1) this] obtain r where "g @ [nm] = (g @ name # rest) @ r"
    by blast
  then have "[nm] = name # rest @ r" by simp
  with assms(2) show False by simp
qed

lemma copy_files_sibling:
  assumes "copy_files fs pack_dir (g @ [nm]) fnames = (res, fs')" and "nm \<noteq> name"
  shows "fs_lookup fs' (g @ name # rest) = fs_lookup fs (g @ name # rest)"
proof (rule ccontr)
  assume "fs_lookup fs' (g @ name # rest) \<noteq> fs_lookup fs (g @ name # rest)"
  from copy_files_changes [OF assms(1) this] obtain f where "g @ name # rest = (g @ [nm]) @ [f]"
    by blast
  then have "name # rest = [nm, f]" by simp
  with assms(2) show False by simp
qed

lemma seed_loop_frame:
  "path_exists fs (guidelines_dir self @ [name]) \<Longrightarrow>
   seed_loop self fs ds = (res, fs') \<Longrightarrow>
   fs_lookup fs' (guidelines_dir self @ name # rest) = fs_lookup fs (guidelines_dir self @ name # rest)"
proof (induction ds arbitrary: fs rest)
  case Nil
  then show ?case by simp
next
  case (Cons pack_dir ds)
  let ?g = "guidelines_dir self"
  let ?dest = "?g @ [path_name pack_dir]"
  show ?case
  proof (cases "py_is_dir fs pack_dir")
    case (Inl e)
    with Cons.prems(2) have "fs' = fs" by simp
    then show ?thesis by simp
  next
    case isd: (Inr d)
    show ?thesis
    proof (cases "d \<and> py_exists fs ?dest = Inr False")
      case False
      then consider (skip) "seed_loop self fs ds = (res, fs')" | (stop) "fs' = fs"
        using isd Cons.prems(2)
        by (cases d; cases "py_exists fs ?dest") (auto simp: Let_def split: if_splits)
      then show ?thesis
      proof cases
        case skip
        from Cons.IH [OF Cons.prems(1) this] show ?thesis .
      next
        case stop
        then show ?thesis by simp
      qed
    next
      case True
      then have d: d and absent: "py_exists fs ?dest = Inr False" by simp_all
      from py_exists_False [OF absent] Cons.prems(1) have ne: "path_name pack_dir \<noteq> name"
        by (auto simp: path_exists_def)
      show ?thesis
      proof (cases "mkdir_parents fs ?dest")
        case (Inl e)
        with isd d absent Cons.prems(2) have "fs' = fs" by (simp add: Let_def)
        then show ?thesis by simp
      next
        case mk: (Inr fs1)
        obtain r2 fs2 where cp:
          "copy_files fs1 pack_dir ?dest [''manifest.json'', ''rules.json''] = (r2, fs2)"
          by (cases "copy_files fs1 pack_dir ?dest [''manifest.json'', ''rules.json'']") blast
        have u1: "fs_lookup fs1 (?g @ name # r) = fs_lookup fs (?g @ name # r)" for r
          using mkdir_parents_sibling [OF mk ne] .
        have u2: "fs_lookup fs2 (?g @ name # r) = fs_lookup fs1 (?g @ name # r)" for r
          using copy_files_sibling [OF cp ne] .
        have u: "fs_lookup fs2 (?g @ name # r) = fs_lookup fs (?g @ name # r)" for r
          using u1 u2 by simp
        show ?thesis
        proof (cases r2)
          case (Inl e)
          with isd d absent mk cp Cons.prems(2) have "fs' = fs2" by (simp add: Let_def)
          with u show ?thesis by simp
        next
          case (Inr x)
          with isd d absent mk cp Cons.prems(2) have sl: "seed_loop self fs2 ds = (res, fs')"
            by (simp add: Let_def)
          have "path_exists fs2 (?g @ [name])"
            using Cons.prems(1) u [of "[]"] by (simp add: path_exists_def)
          from Cons.IH [OF this sl] u show ?thesis by simp
        qed
      qed
    qed
  qed
qed

text \<open>
  Claim C8. Whatever the builtin source holds, a pack directory that exists in the store
  before \<^verbatim>\<open>ensure_builtin_installed\<close> runs is the same afterwards, and so is every path
  below it: nothing in it is overwritten, added or removed, also when the builtin pack
  of that name is newer and also when the run ends in an exception. Only names absent
  from the store are written to.
\<close>

theorem seeding_keeps_existing:
  "path_exists fs (guidelines_dir self @ [name]) \<Longrightarrow>
   ensure_builtin_installed self fs = (res, fs') \<Longrightarrow>
   fs_lookup fs' (guidelines_dir self @ name # rest) = fs_lookup fs (guidelines_dir self @ name # rest)"
proof -
  assume ex: "path_exists fs (guidelines_dir self @ [name])"
    and run: "ensure_builtin_installed self fs = (res, fs')"
  show ?thesis
  proof (cases "\<exists>ds. iterdir fs (builtin_dir self @ [''packs'']) = Inr ds
      \<and> seed_loop self fs ds = (res, fs')")
    case True
    then obtain ds where "seed_loop self fs ds = (res, fs')" by blast
    from seed_loop_frame [OF ex this] show ?thesis .
  next
    case False
    with run have "fs' = fs"
      by (auto simp: ensure_builtin_installed_def Let_def split: if_splits sum.splits)
    then show ?thesis by simp
  qed
qed

theorem seeding_keeps_existing_witness:
  \<open>path_exists demo_fs (guidelines_dir demo_manager @ [''core''])
   \<and> fst (ensure_builtin_installed demo_manager demo_fs) = Inr ()
   \<and> fs_lookup (snd (ensure_builtin_installed demo_manager demo_fs))
        (guidelines_dir demo_manager @ [''core'', ''manifest.json''])
      = Some (File (ascii_bytes ''{"version": "1.2.0"}''))
   \<and> fs_lookup demo_fs (builtin_dir demo_manager @ [''packs'', ''core'', ''manifest.json''])
      = Some (File (ascii_bytes ''{"version": "2.0.0"}''))
   \<and> fs_lookup (snd (ensure_builtin_installed demo_manager demo_fs))
        (guidelines_dir demo_manager @ [''extra'', ''manifest.json''])
      = Some (File (ascii_bytes ''{}''))\<close>
proof -
  have a: "path_exists demo_fs (guidelines_dir demo_manager @ [''core''])" by code_simp
  have b: "fst (ensure_builtin_installed demo_manager demo_fs) = Inr ()" by code_simp
  have c: \<open>fs_lookup demo_fs (guidelines_dir demo_manager @ [''core'', ''manifest.json''])
      = Some (File (ascii_bytes ''{"version": "1.2.0"}''))\<close> by code_simp
  have d: \<open>fs_lookup demo_fs (builtin_dir demo_manager @ [''packs'', ''core'', ''manifest.json''])
      = Some (File (ascii_bytes ''{"version": "2.0.0"}''))\<close> by code_simp
  have e: \<open>fs_lookup (snd (ensure_builtin_installed demo_manager demo_fs))
        (guidelines_dir demo_manager @ [''extra'', ''manifest.json''])
      = Some (File (ascii_bytes ''{}''))\<close> by code_simp
  have run: "ensure_builtin_installed demo_manager demo_fs =
      (fst (ensure_builtin_installed demo_manager demo_fs),
       snd (ensure_builtin_installed demo_manager demo_fs))" by simp
  from seeding_keeps_existing [OF a run, of "[''manifest.json'']"] c
  have \<open>fs_lookup (snd (ensure_builtin_installed demo_manager demo_fs))
        (guidelines_dir demo_manager @ [''core'', ''manifest.json''])
      = Some (File (ascii_bytes ''{"version": "1.2.0"}''))\<close> by simp
  with a b d e show ?thesis by simp
qed

subsection \<open>Catalog fetcher\<close>

lemma pack_info_JObj:
  "pack_info L (JObj kvs) =
     (case map_of kvs ''id'' of None \<Rightarrow> Inl (KeyError ''id'') | Some i \<Rightarrow>
      case map_of kvs ''manifest_url'' of None \<Rightarrow> Inl (KeyError ''manifest_url'') | Some mu \<Rightarrow>
      case map_of kvs ''rules_url'' of None \<Rightarrow> Inl (KeyError ''rules_url'') | Some ru \<Rightarrow>
      case map_of kvs ''sha256_manifest'' of None \<Rightarrow> Inl (KeyError ''sha256_manifest'') | Some sm \<Rightarrow>
      case map_of kvs ''sha256_rules'' of None \<Rightarrow> Inl (KeyError ''sha256_rules'') | Some sr \<Rightarrow>
      Inr \<lparr>id' = py_str L i,
           title = py_str L (case map_of kvs ''title'' of None \<Rightarrow> i | Some t \<Rightarrow> t),
           version = py_str L (case map_of kvs ''version'' of None \<Rightarrow> JStr ''0.0.0'' | Some v \<Rightarrow> v),
           manifest_url = py_str L mu,
           rules_url = py_str L ru,
           sha256_manifest = py_lower (py_str L sm),
           sha256_rules = py_lower (py_str L sr)\<rparr>)"
  by (simp add: pack_info_def py_getitem_def py_get_def py_get_method_def bind_err_def
      split: option.split)


lemma pack_info_not_object:
  "\<not> (\<exists>kvs. p = JObj kvs) \<Longrightarrow> pack_info L p = Inl TypeError"
  by (cases p) (simp_all add: pack_info_def py_getitem_def bind_err_def)

lemma spec_descriptor_JObj:
  "spec_descriptor L (JObj kvs) =
     (case map_of kvs ''id'' of None \<Rightarrow> None | Some i \<Rightarrow>
      case map_of kvs ''manifest_url'' of None \<Rightarrow> None | Some mu \<Rightarrow>
      case map_of kvs ''rules_url'' of None \<Rightarrow> None | Some ru \<Rightarrow>
      case map_of kvs ''sha256_manifest'' of None \<Rightarrow> None | Some sm \<Rightarrow>
      case map_of kvs ''sha256_rules'' of None \<Rightarrow> None | Some sr \<Rightarrow>
      Some \<lparr>id' = py_str L i,
           title = (case map_of kvs ''title'' of None \<Rightarrow> py_str L i | Some t \<Rightarrow> py_str L t),
           version = (case map_of kvs ''version'' of None \<Rightarrow> ''0.0.0'' | Some v \<Rightarrow> py_str L v),
           manifest_url = py_str L mu,
           rules_url = py_str L ru,
           sha256_manifest = py_lower (py_str L sm),
           sha256_rules = py_lower (py_str L sr)\<rparr>)"
  by (simp add: spec_descriptor_def split: option.split)

lemma pack_info_spec:
  "pack_info L p = (case spec_descriptor L p of Some d \<Rightarrow> Inr d | None \<Rightarrow> pack_info L p)
   \<and> (spec_descriptor L p = None \<longrightarrow> (\<exists>e. pack_info L p = Inl e))"
proof (cases "\<exists>kvs. p = JObj kvs")
  case True
  then obtain kvs where p: "p = JObj kvs" by blast
  show ?thesis
    unfolding p pack_info_JObj spec_descriptor_JObj
    by (simp add: py_str_JStr split: option.split)
next
  case False
  then have "pack_info L p = Inl TypeError" by (rule pack_info_not_object)
  moreover from False have "spec_descriptor L p = None"
    by (cases p) (simp_all add: spec_descriptor_def)
  ultimately show ?thesis by simp
qed

lemma pack_info_spec_Some: "spec_descriptor L p = Some d \<Longrightarrow> pack_info L p = Inr d"
  using pack_info_spec [of L p] by simp

lemma pack_info_spec_None: "spec_descriptor L p = None \<Longrightarrow> \<exists>e. pack_info L p = Inl e"
  using pack_info_spec [of L p] by simp

lemma fetch_index_loop_spec:
  "(case those (map (spec_descriptor L) ps) of
      Some ds \<Rightarrow> fetch_index_loop L out ps = Inr (out @ ds)
    | None \<Rightarrow> \<exists>e. fetch_index_loop L out ps = Inl e)"
proof (induction ps arbitrary: out)
  case Nil
  show ?case by simp
next
  case (Cons p ps)
  show ?case
  proof (cases "spec_descriptor L p")
    case None
    then show ?thesis using pack_info_spec_None [OF None] by auto
  next
    case (Some d)
    then show ?thesis
      using pack_info_spec_Some [OF Some] Cons [of "out @ [d]"]
      by (auto split: option.splits)
  qed
qed


lemma py_lower_char_idem: "py_lower_char (py_lower_char c) = py_lower_char c"
proof -
  let ?n = "of_char c :: nat"
  show ?thesis
  proof (cases "(65 \<le> ?n \<and> ?n \<le> 90) \<or> (192 \<le> ?n \<and> ?n \<le> 222 \<and> ?n \<noteq> 215)")
    case True
    then have l: "py_lower_char c = char_of (?n + 32)"
      by (simp add: py_lower_char_def Let_def)
    from True have "(?n + 32) mod 256 = ?n + 32" by auto
    then have o: "(of_char (char_of (?n + 32) :: char) :: nat) = ?n + 32"
      by (simp add: of_char_of)
    from True have "\<not> ((65 \<le> ?n + 32 \<and> ?n + 32 \<le> 90)
        \<or> (192 \<le> ?n + 32 \<and> ?n + 32 \<le> 222 \<and> ?n + 32 \<noteq> 215))" by auto
    then have "py_lower_char (char_of (?n + 32)) = char_of (?n + 32)"
      unfolding py_lower_char_def Let_def o by (simp only: if_False)
    with l show ?thesis by simp
  next
    case False
    then have "py_lower_char c = c" by (auto simp: py_lower_char_def Let_def)
    then show ?thesis by simp
  qed
qed

lemma py_lower_idem: "py_lower (py_lower s) = py_lower s"
  by (simp add: py_lower_def py_lower_char_idem)


lemma those_None_iff: "those (map f ps) = None \<longleftrightarrow> (\<exists>p\<in>set ps. f p = None)"
  by (induction ps) (auto split: option.splits)

lemma spec_descriptor_required:
  "k \<in> set [''id'', ''manifest_url'', ''rules_url'', ''sha256_manifest'', ''sha256_rules''] \<Longrightarrow>
   map_of kvs k = None \<Longrightarrow> spec_descriptor L (JObj kvs) = None"
  unfolding spec_descriptor_JObj by (auto split: option.splits)

lemma spec_descriptor_fields:
  "spec_descriptor L (JObj kvs) = Some d \<Longrightarrow>
     (map_of kvs ''title'' = None \<longrightarrow> title d = id' d)
   \<and> (map_of kvs ''version'' = None \<longrightarrow> version d = ''0.0.0'')
   \<and> py_lower (sha256_manifest d) = sha256_manifest d
   \<and> py_lower (sha256_rules d) = sha256_rules d"
  unfolding spec_descriptor_JObj by (auto simp: py_lower_idem split: option.splits)

lemma fetch_index_of_document:
  "fetch_json L w u = (Inr idx, w') \<Longrightarrow> py_get idx ''packs'' (JArr []) = Inr packs \<Longrightarrow>
   py_iter packs = Inr ps \<Longrightarrow> fetch_index L w u = (fetch_index_loop L [] ps, w')"
  by (simp add: fetch_index_def index_packs_def bind_err_def)

text \<open>
  Claim C4. For a fetched catalog document whose \<^verbatim>\<open>packs\<close> can be iterated,
  \<^verbatim>\<open>fetch_index\<close> returns the descriptors of all entries when every entry has one, and
  raises, returning no list at all, when some entry has none; an entry that lacks
  \<^verbatim>\<open>id\<close>, \<^verbatim>\<open>manifest_url\<close>, \<^verbatim>\<open>rules_url\<close>, \<^verbatim>\<open>sha256_manifest\<close> or \<^verbatim>\<open>sha256_rules\<close> has
  none. In the descriptor of an entry a missing title is the id, a missing version is
  \<^verbatim>\<open>"0.0.0"\<close>, and the two digests are in lowercase.
\<close>

theorem fetch_index_atomic:
  "fetch_json L w u = (Inr idx, w') \<Longrightarrow> py_get idx ''packs'' (JArr []) = Inr packs \<Longrightarrow>
   py_iter packs = Inr ps \<Longrightarrow>
     (case those (map (spec_descriptor L) ps) of
        Some ds \<Rightarrow> fetch_index L w u = (Inr ds, w')
      | None \<Rightarrow> (\<exists>e. fetch_index L w u = (Inl e, w')))
   \<and> (JObj kvs \<in> set ps \<longrightarrow>
        k \<in> set [''id'', ''manifest_url'', ''rules_url'', ''sha256_manifest'', ''sha256_rules''] \<longrightarrow>
        map_of kvs k = None \<longrightarrow> (\<exists>e. fetch_index L w u = (Inl e, w')))
   \<and> (spec_descriptor L (JObj kvs) = Some d \<longrightarrow>
        (map_of kvs ''title'' = None \<longrightarrow> title d = id' d)
      \<and> (map_of kvs ''version'' = None \<longrightarrow> version d = ''0.0.0'')
      \<and> py_lower (sha256_manifest d) = sha256_manifest d
      \<and> py_lower (sha256_rules d) = sha256_rules d)"
proof -
  assume a: "fetch_json L w u = (Inr idx, w')" and b: "py_get idx ''packs'' (JArr []) = Inr packs"
    and c: "py_iter packs = Inr ps"
  have fi: "fetch_index L w u = (fetch_index_loop L [] ps, w')"
    using a b c by (rule fetch_index_of_document)
  have one: "case those (map (spec_descriptor L) ps) of
        Some ds \<Rightarrow> fetch_index L w u = (Inr ds, w')
      | None \<Rightarrow> (\<exists>e. fetch_index L w u = (Inl e, w'))"
    using fetch_index_loop_spec [where L = L and ps = ps and out = "[]"] by (simp add: fi split: option.splits)
  have two: "\<exists>e. fetch_index L w u = (Inl e, w')"
    if "JObj kvs \<in> set ps"
      and "k \<in> set [''id'', ''manifest_url'', ''rules_url'', ''sha256_manifest'', ''sha256_rules'']"
      and "map_of kvs k = None"
  proof -
    have "spec_descriptor L (JObj kvs) = None"
      using that(2,3) by (rule spec_descriptor_required)
    with that(1) have "those (map (spec_descriptor L) ps) = None"
      unfolding those_None_iff by blast
    with one show ?thesis by simp
  qed
  show ?thesis
    using one two spec_descriptor_fields [of L kvs d] by blast
qed

lemma ascii_roundtrip:
  "list_all (\<lambda>c. (of_char c :: nat) < 128) s \<Longrightarrow> ascii_decode (ascii_bytes s) = Inr s"
proof -
  assume a: "list_all (\<lambda>c. (of_char c :: nat) < 128) s"
  have u: "unat (of_nat (of_char c) :: 8 word) = of_char c" for c :: char
    by (simp add: unat_of_nat)
  have small: "list_all (\<lambda>w. w < 128) (ascii_bytes s)"
    using a by (induction s) (simp_all add: ascii_bytes_def word_less_nat_alt u)
  have "map (\<lambda>w. char_of (unat w)) (ascii_bytes s) = s"
    by (induction s) (simp_all add: ascii_bytes_def u)
  with small show ?thesis by (simp add: ascii_decode_def)
qed

lemma demo_decode_catalog: "ascii_decode (ascii_bytes demo_catalog_text) = Inr demo_catalog_text"
  by (rule ascii_roundtrip) (simp add: demo_catalog_text_def)

lemma demo_decode_bad: "ascii_decode (ascii_bytes demo_bad_catalog_text) = Inr demo_bad_catalog_text"
  by (rule ascii_roundtrip) (simp add: demo_bad_catalog_text_def)

lemma demo_loads_catalog: "demo_loads demo_catalog_text = Inr demo_catalog"
  by code_simp

lemma demo_loads_bad: "demo_loads demo_bad_catalog_text = Inr demo_bad_catalog"
  by code_simp

lemma https_only_demo_index: "https_only ''https://example/index.json'' = Inr ()"
  by code_simp

lemma https_only_demo_bad: "https_only ''https://example/bad.json'' = Inr ()"
  by code_simp

lemma demo_fetch_json_catalog:
  "fetch_json demo_lib demo_world ''https://example/index.json'' =
     (Inr demo_catalog, demo_world\<lparr>requests := [get_request ''https://example/index.json'' 15]\<rparr>)"
  by (simp add: fetch_json_def fetch_bytes_def https_only_demo_index demo_world_def demo_lib_def
      get_request_def bind_err_def demo_decode_catalog demo_loads_catalog)

lemma demo_fetch_json_bad:
  "fetch_json demo_lib demo_world ''https://example/bad.json'' =
     (Inr demo_bad_catalog, demo_world\<lparr>requests := [get_request ''https://example/bad.json'' 15]\<rparr>)"
  by (simp add: fetch_json_def fetch_bytes_def https_only_demo_bad demo_world_def demo_lib_def
      get_request_def bind_err_def demo_decode_bad demo_loads_bad)

lemma demo_those_catalog:
  "those (map (spec_descriptor demo_lib) [demo_entry]) =
     Some [\<lparr>id' = ''core'', title = ''core'', version = ''0.0.0'',
            manifest_url = ''https://example/m'', rules_url = ''https://example/r'',
            sha256_manifest = ''02ab'', sha256_rules = ''02ab''\<rparr>]"
  by code_simp

theorem fetch_index_atomic_witness:
  "fst (fetch_index demo_lib demo_world ''https://example/index.json'') =
     Inr [\<lparr>id' = ''core'', title = ''core'', version = ''0.0.0'',
           manifest_url = ''https://example/m'', rules_url = ''https://example/r'',
           sha256_manifest = ''02ab'', sha256_rules = ''02ab''\<rparr>]
   \<and> map_of [(''id'', JStr ''B''), (''title'', JStr ''B'')] ''manifest_url'' = None
   \<and> (\<exists>e. fst (fetch_index demo_lib demo_world ''https://example/bad.json'') = Inl e)"
proof -
  have g1: "py_get demo_catalog ''packs'' (JArr []) = Inr (JArr [demo_entry])"
    by (simp add: py_get_def py_get_method_def bind_err_def demo_catalog_def)
  have g2: "py_iter (JArr [demo_entry]) = Inr [demo_entry]"
    by (simp add: py_iter_def)
  have b1: "py_get demo_bad_catalog ''packs'' (JArr [])
      = Inr (JArr [demo_entry, JObj [(''id'', JStr ''B''), (''title'', JStr ''B'')]])"
    by (simp add: py_get_def py_get_method_def bind_err_def demo_bad_catalog_def)
  have b2: "py_iter (JArr [demo_entry, JObj [(''id'', JStr ''B''), (''title'', JStr ''B'')]])
      = Inr [demo_entry, JObj [(''id'', JStr ''B''), (''title'', JStr ''B'')]]"
    by (simp add: py_iter_def)
  have m: "map_of [(''id'', JStr ''B''), (''title'', JStr ''B'')] ''manifest_url'' = None"
    by simp
  from fetch_index_atomic [OF demo_fetch_json_catalog g1 g2] demo_those_catalog
  have good: "fst (fetch_index demo_lib demo_world ''https://example/index.json'') =
     Inr [\<lparr>id' = ''core'', title = ''core'', version = ''0.0.0'',
           manifest_url = ''https://example/m'', rules_url = ''https://example/r'',
           sha256_manifest = ''02ab'', sha256_rules = ''02ab''\<rparr>]"
    by simp
  let ?B = "[(''id'', JStr ''B''), (''title'', JStr ''B'')]"
  let ?W = "demo_world\<lparr>requests := [get_request ''https://example/bad.json'' 15]\<rparr>"
  have imp: "JObj ?B \<in> set [demo_entry, JObj ?B] \<longrightarrow>
      ''manifest_url'' \<in> set [''id'', ''manifest_url'', ''rules_url'', ''sha256_manifest'', ''sha256_rules''] \<longrightarrow>
      map_of ?B ''manifest_url'' = None \<longrightarrow>
      (\<exists>e. fetch_index demo_lib demo_world ''https://example/bad.json'' = (Inl e, ?W))"
    by (rule fetch_index_atomic [OF demo_fetch_json_bad b1 b2, of ?B "''manifest_url''",
          THEN conjunct2, THEN conjunct1])
  have mem: "JObj ?B \<in> set [demo_entry, JObj ?B]" by simp
  have req: "''manifest_url'' \<in> set [''id'', ''manifest_url'', ''rules_url'', ''sha256_manifest'', ''sha256_rules'']"
    by simp
  from imp mem req m obtain e where
    "fetch_index demo_lib demo_world ''https://example/bad.json'' = (Inl e, ?W)" by blast
  then have bad: "\<exists>e. fst (fetch_index demo_lib demo_world ''https://example/bad.json'') = Inl e"
    by simp
  from good m bad show ?thesis by blast
qed

end
